theory Spec2Isabelle
  imports Main "HOL-Library.Signed_Division"
begin

section \<open>TvStreamer launcher: redraw scheduling and state synchronisation\<close>

text \<open>
  A shallow embedding of \<^verbatim>\<open>launcher.c\<close>: the navigation switch of
  \<^verbatim>\<open>handle_events\<close>, the confirmation dialog \<^verbatim>\<open>show_confirm\<close>, the process
  supervisor (\<^verbatim>\<open>launch_app\<close>, \<^verbatim>\<open>is_app_running\<close>), the body of the sampler
  thread \<^verbatim>\<open>stats_thread_func\<close> and one iteration of the main loop of \<^verbatim>\<open>run\<close>.

  C \<^verbatim>\<open>int\<close> fields are kept as integers and tested the way C tests them
  (\<open>\<noteq> 0\<close> for truth). The values stored in them stay far from the limits of a machine word
  (\<open>selected\<close> stays in \<open>[0, NUM_APPS)\<close>, see \<open>handle_events_selected_range\<close>), so they are
  modelled by \<open>int\<close>; the remainder operator \<^verbatim>\<open>%\<close> is C's truncating one (\<open>smod\<close>).

  Everything outside the process is explicit. The results of \<^verbatim>\<open>SDL_PollEvent\<close> are a
  list of optional events (\<open>None\<close>: the queue was empty at that call; past the end of the
  list the queue stays empty), the results of \<^verbatim>\<open>fork\<close> are a list kept in the state
  (past its end \<^verbatim>\<open>fork\<close> fails), the result of \<^verbatim>\<open>waitpid\<close> and the wall clock are
  arguments of a tick. Calls that act on the outside world are recorded in a trace, newest
  first.
\<close>

subsection \<open>Static configuration\<close>

definition NUM_APPS :: int where
  "NUM_APPS = 5"

record App =
  name :: string
  command :: string
  icon :: string

definition ICON_TV :: string where
  "ICON_TV = [CHR 0xEF, CHR 0x89, CHR 0xAC]"

definition ICON_PLAY :: string where
  "ICON_PLAY = [CHR 0xEF, CHR 0x81, CHR 0x8B]"

definition ICON_VIDEO :: string where
  "ICON_VIDEO = [CHR 0xEF, CHR 0x80, CHR 0xBD]"

definition ICON_MUSIC :: string where
  "ICON_MUSIC = [CHR 0xEF, CHR 0x80, CHR 0x81]"

definition ICON_BLUETOOTH :: string where
  "ICON_BLUETOOTH = [CHR 0xEF, CHR 0x8A, CHR 0x93]"

definition apps :: "App list" where
  "apps =
    [\<lparr>name = ''Kodi'', command = ''kodi'', icon = ICON_TV\<rparr>,
     \<lparr>name = ''Stremio'', command = ''/home/aleksa/.local/bin/stremio'', icon = ICON_PLAY\<rparr>,
     \<lparr>name = ''IPTV'', command = ''/home/aleksa/omarchy-iptv'', icon = ICON_VIDEO\<rparr>,
     \<lparr>name = ''Tidal'', command = ''tidal-hifi'', icon = ICON_MUSIC\<rparr>,
     \<lparr>name = ''Bluetooth'', command = ''blueman-manager'', icon = ICON_BLUETOOTH\<rparr>]"

subsection \<open>Data model\<close>

text \<open>The struct \<^verbatim>\<open>Stats\<close>, shared by the sampler thread and the main thread.\<close>

record Stats =
  cpu :: int
  mem :: int
  temp :: int
  disk :: int
  changed :: int
  running :: int

text \<open>
  The state part of the struct \<^verbatim>\<open>Launcher\<close>. The window, renderer, fonts, cached
  textures and layout rectangles are written once at start-up and only read by the drawing
  code; no function modelled here depends on them.
\<close>

record Launcher =
  selected :: int
  settings_selected :: int
  needs_redraw :: int
  last_minute :: int
  app_running :: int
  stats :: Stats

text \<open>Input events, reduced to what \<^verbatim>\<open>handle_events\<close> and \<^verbatim>\<open>show_confirm\<close> tell apart.\<close>

datatype keysym =
  SDLK_ESCAPE | SDLK_q | SDLK_LEFT | SDLK_RIGHT | SDLK_UP | SDLK_DOWN
  | SDLK_RETURN | SDLK_KP_ENTER | SDLK_r | SDLK_p | SDLK_other

datatype event = SDL_QUIT | SDL_KEYDOWN keysym | SDL_other_event

text \<open>Calls with an effect outside the process, as recorded in the trace.\<close>

datatype effect =
  Fork string int  \<comment> \<open>\<^verbatim>\<open>fork()\<close> on behalf of a command, with the value it returned\<close>
  | Waitpid_nohang int int  \<comment> \<open>\<^verbatim>\<open>waitpid(pid, &status, WNOHANG)\<close> and its result\<close>
  | System string  \<comment> \<open>\<^verbatim>\<open>system(cmd)\<close>\<close>
  | HideWindow
  | ShowWindow
  | RaiseWindow
  | Draw  \<comment> \<open>a full repaint by \<^verbatim>\<open>draw\<close>\<close>
  | Dialog_shown string  \<comment> \<open>the dialog of \<^verbatim>\<open>show_confirm\<close> was presented\<close>
  | Confirm_returned string int  \<comment> \<open>\<^verbatim>\<open>show_confirm(action)\<close> returned this value\<close>
  | Delay nat  \<comment> \<open>\<^verbatim>\<open>SDL_Delay(ms)\<close>\<close>

text \<open>
  The ways in which a call does not return to the launcher's loop: the dialog waits for a key
  that never comes, \<^verbatim>\<open>fork\<close> returned 0 (the code is running in the child, which
  replaces itself by the shell or exits), or \<^verbatim>\<open>apps\<close> is read outside its bounds.
\<close>

datatype fault = Waits_forever | In_child | Out_of_bounds

text \<open>
  The whole process state: the launcher struct, the static \<^verbatim>\<open>launched_app_pid\<close>, whether
  the window is shown, the pending results of \<^verbatim>\<open>fork\<close>, and the trace.
\<close>

record state =
  launcher :: Launcher
  launched_app_pid :: int
  window_shown :: bool
  fork_results :: "int list"
  trace :: "effect list"

text \<open>The fields of \<^verbatim>\<open>struct tm\<close> that \<^verbatim>\<open>run\<close> reads.\<close>

record tm =
  tm_hour :: int
  tm_min :: int

subsection \<open>Calls into SDL and libc\<close>

definition SDL_HideWindow :: "state \<Rightarrow> state" where
  "SDL_HideWindow s = s\<lparr>window_shown := False, trace := HideWindow # trace s\<rparr>"

definition SDL_ShowWindow :: "state \<Rightarrow> state" where
  "SDL_ShowWindow s = s\<lparr>window_shown := True, trace := ShowWindow # trace s\<rparr>"

definition SDL_RaiseWindow :: "state \<Rightarrow> state" where
  "SDL_RaiseWindow s = s\<lparr>trace := RaiseWindow # trace s\<rparr>"

definition SDL_Delay :: "nat \<Rightarrow> state \<Rightarrow> state" where
  "SDL_Delay ms s = s\<lparr>trace := Delay ms # trace s\<rparr>"

definition system :: "string \<Rightarrow> state \<Rightarrow> state" where
  "system cmd s = s\<lparr>trace := System cmd # trace s\<rparr>"

definition draw :: "state \<Rightarrow> state" where
  "draw s = s\<lparr>trace := Draw # trace s\<rparr>"

subsection \<open>Process supervisor\<close>

text \<open>
  \<^verbatim>\<open>launch_app\<close>: the next result of \<^verbatim>\<open>fork\<close> is taken from the state; the parent stores
  a positive pid and otherwise leaves \<^verbatim>\<open>launched_app_pid\<close> alone.
\<close>

definition launch_app :: "string \<Rightarrow> state \<Rightarrow> fault + state" where
  "launch_app cmd s =
    (let pid = (case fork_results s of [] \<Rightarrow> - 1 | r # _ \<Rightarrow> r);
         s1 = s\<lparr>fork_results := tl (fork_results s), trace := Fork cmd pid # trace s\<rparr>
     in if pid = 0 then Inl In_child
        else if pid > 0 then Inr (s1\<lparr>launched_app_pid := pid\<rparr>)
        else Inr s1)"

text \<open>
  \<^verbatim>\<open>is_app_running\<close>, given the value that \<^verbatim>\<open>waitpid\<close> returns if it is called.
\<close>

definition is_app_running :: "int \<Rightarrow> state \<Rightarrow> int \<times> state" where
  "is_app_running result s =
    (if launched_app_pid s \<le> 0 then (0, s)
     else
       (let s1 = s\<lparr>trace := Waitpid_nohang (launched_app_pid s) result # trace s\<rparr>
        in if result = launched_app_pid s then (0, s1\<lparr>launched_app_pid := 0\<rparr>)
           else if result = 0 then (1, s1)
           else (0, s1\<lparr>launched_app_pid := 0\<rparr>)))"

subsection \<open>Confirmation dialog\<close>

text \<open>
  The waiting loop of \<^verbatim>\<open>show_confirm\<close>: events are polled until Enter or Escape; an
  empty queue costs a delay of 50 ms; every other event is dropped.
\<close>

fun confirm_wait ::
  "event option list \<Rightarrow> effect list \<Rightarrow> fault + (int \<times> event option list \<times> effect list)"
where
  "confirm_wait [] tr = Inl Waits_forever"
| "confirm_wait (None # es) tr = confirm_wait es (Delay 50 # tr)"
| "confirm_wait (Some (SDL_KEYDOWN k) # es) tr =
    (if k = SDLK_RETURN \<or> k = SDLK_KP_ENTER then Inr (1, es, tr)
     else if k = SDLK_ESCAPE then Inr (0, es, tr)
     else confirm_wait es tr)"
| "confirm_wait (Some SDL_QUIT # es) tr = confirm_wait es tr"
| "confirm_wait (Some SDL_other_event # es) tr = confirm_wait es tr"

definition show_confirm ::
  "string \<Rightarrow> event option list \<Rightarrow> state \<Rightarrow> fault + (int \<times> event option list \<times> state)"
where
  "show_confirm action es s =
    (case confirm_wait es (Dialog_shown action # trace s) of
       Inl f \<Rightarrow> Inl f
     | Inr (r, es', tr) \<Rightarrow> Inr (r, es', s\<lparr>trace := Confirm_returned action r # tr\<rparr>))"

subsection \<open>Event handling\<close>

text \<open>
  The body of \<^verbatim>\<open>handle_events\<close> for one \<^verbatim>\<open>SDL_KEYDOWN\<close> event: the assignment
  \<^verbatim>\<open>l->needs_redraw = 1\<close> and the switch over the key. The boolean of the result is
  \<open>True\<close> where the switch executes \<^verbatim>\<open>return 0\<close> and \<open>False\<close> where it reaches
  \<^verbatim>\<open>break\<close>; the event list is what the dialog has left unread.
\<close>

definition handle_key ::
  "keysym \<Rightarrow> event option list \<Rightarrow> state \<Rightarrow> fault + (bool \<times> event option list \<times> state)"
where
  "handle_key k es s =
    (let l = (launcher s)\<lparr>needs_redraw := 1\<rparr>;
         s1 = s\<lparr>launcher := l\<rparr>
     in case k of
       SDLK_ESCAPE \<Rightarrow> Inr (True, es, s1)
     | SDLK_q \<Rightarrow> Inr (True, es, s1)
     | SDLK_LEFT \<Rightarrow>
         Inr (False, es,
           if settings_selected l \<noteq> 0
           then s1\<lparr>launcher := l\<lparr>settings_selected := 0\<rparr>\<rparr>
           else s1\<lparr>launcher := l\<lparr>selected := (selected l - 1 + NUM_APPS) smod NUM_APPS\<rparr>\<rparr>)
     | SDLK_RIGHT \<Rightarrow>
         Inr (False, es,
           if settings_selected l \<noteq> 0
           then s1\<lparr>launcher := l\<lparr>settings_selected := 0, selected := 0\<rparr>\<rparr>
           else s1\<lparr>launcher := l\<lparr>selected := (selected l + 1) smod NUM_APPS\<rparr>\<rparr>)
     | SDLK_UP \<Rightarrow>
         Inr (False, es,
           if \<not> settings_selected l \<noteq> 0
           then s1\<lparr>launcher := l\<lparr>settings_selected := 1\<rparr>\<rparr>
           else s1)
     | SDLK_DOWN \<Rightarrow>
         Inr (False, es,
           if settings_selected l \<noteq> 0
           then s1\<lparr>launcher := l\<lparr>settings_selected := 0\<rparr>\<rparr>
           else s1)
     | SDLK_RETURN \<Rightarrow>
         (case (if settings_selected l \<noteq> 0 then launch_app ''gnome-control-center'' s1
                else if 0 \<le> selected l \<and> selected l < NUM_APPS
                then launch_app (command (apps ! nat (selected l))) s1
                else Inl Out_of_bounds) of
            Inl f \<Rightarrow> Inl f
          | Inr s2 \<Rightarrow>
              Inr (False, es,
                SDL_HideWindow (s2\<lparr>launcher := (launcher s2)\<lparr>app_running := 1\<rparr>\<rparr>)))
     | SDLK_KP_ENTER \<Rightarrow>
         (case (if settings_selected l \<noteq> 0 then launch_app ''gnome-control-center'' s1
                else if 0 \<le> selected l \<and> selected l < NUM_APPS
                then launch_app (command (apps ! nat (selected l))) s1
                else Inl Out_of_bounds) of
            Inl f \<Rightarrow> Inl f
          | Inr s2 \<Rightarrow>
              Inr (False, es,
                SDL_HideWindow (s2\<lparr>launcher := (launcher s2)\<lparr>app_running := 1\<rparr>\<rparr>)))
     | SDLK_r \<Rightarrow>
         (case show_confirm ''Reboot'' es s1 of
            Inl f \<Rightarrow> Inl f
          | Inr (c, es', s2) \<Rightarrow>
              (let s3 = (if c \<noteq> 0 then system ''sudo reboot'' s2 else s2)
               in Inr (False, es', s3\<lparr>launcher := (launcher s3)\<lparr>needs_redraw := 1\<rparr>\<rparr>)))
     | SDLK_p \<Rightarrow>
         (case show_confirm ''Power Off'' es s1 of
            Inl f \<Rightarrow> Inl f
          | Inr (c, es', s2) \<Rightarrow>
              (let s3 = (if c \<noteq> 0 then system ''sudo poweroff'' s2 else s2)
               in Inr (False, es', s3\<lparr>launcher := (launcher s3)\<lparr>needs_redraw := 1\<rparr>\<rparr>)))
     | SDLK_other \<Rightarrow> Inr (False, es, s1))"

lemma confirm_wait_length:
  "confirm_wait es tr = Inr (r, es', tr') \<Longrightarrow> length es' < length es"
  by (induction es tr rule: confirm_wait.induct) (auto split: if_splits)

lemma show_confirm_length:
  "show_confirm action es s = Inr (r, es', s') \<Longrightarrow> length es' < length es"
  by (auto simp: show_confirm_def split: sum.splits dest: confirm_wait_length)

lemma handle_key_length:
  "handle_key k es s = Inr (q, es', s') \<Longrightarrow> length es' \<le> length es"
  by (cases k)
    (auto simp: handle_key_def Let_def split: sum.splits dest!: show_confirm_length)

text \<open>
  \<^verbatim>\<open>handle_events\<close> drains the queue. It returns 0 when the loop of \<^verbatim>\<open>run\<close> has to
  stop and 1 otherwise, together with the events it has not read and the new state.
\<close>

function (sequential) handle_events ::
  "event option list \<Rightarrow> state \<Rightarrow> fault + (int \<times> event option list \<times> state)"
where
  "handle_events [] s = Inr (1, [], s)"
| "handle_events (None # es) s = Inr (1, es, s)"
| "handle_events (Some SDL_QUIT # es) s = Inr (0, es, s)"
| "handle_events (Some (SDL_KEYDOWN k) # es) s =
    (case handle_key k es s of
       Inl f \<Rightarrow> Inl f
     | Inr (quit, es', s') \<Rightarrow> if quit then Inr (0, es', s') else handle_events es' s')"
| "handle_events (Some SDL_other_event # es) s = handle_events es s"
  by pat_completeness auto
termination
  by (relation "measure (\<lambda>(es, s). length es)") (auto dest: handle_key_length)

subsection \<open>Telemetry sampler\<close>

text \<open>
  What one pass of \<^verbatim>\<open>stats_thread_func\<close> obtains from the system. Each of the four
  reads either stores a value in its field (\<open>Some\<close>) or leaves the field as it is
  (\<open>None\<close>: the source could not be read, or no CPU delta exists yet).
\<close>

record sample =
  cpu_sample :: "int option"
  mem_sample :: "int option"
  temp_sample :: "int option"
  disk_sample :: "int option"

text \<open>One iteration of the loop of \<^verbatim>\<open>stats_thread_func\<close>, without the sleep.\<close>

definition stats_pass :: "sample \<Rightarrow> Stats \<Rightarrow> Stats" where
  "stats_pass x st =
    (let old_cpu = cpu st; old_mem = mem st; old_temp = temp st; old_disk = disk st;
         st1 = (case cpu_sample x of None \<Rightarrow> st | Some v \<Rightarrow> st\<lparr>cpu := v\<rparr>);
         st2 = (case mem_sample x of None \<Rightarrow> st1 | Some v \<Rightarrow> st1\<lparr>mem := v\<rparr>);
         st3 = (case temp_sample x of None \<Rightarrow> st2 | Some v \<Rightarrow> st2\<lparr>temp := v\<rparr>);
         st4 = (case disk_sample x of None \<Rightarrow> st3 | Some v \<Rightarrow> st3\<lparr>disk := v\<rparr>)
     in if cpu st4 \<noteq> old_cpu \<or> mem st4 \<noteq> old_mem \<or>
           temp st4 \<noteq> old_temp \<or> disk st4 \<noteq> old_disk
        then st4\<lparr>changed := 1\<rparr>
        else st4)"

text \<open>The loop itself, one sample per iteration, for as many iterations as there are samples.\<close>

fun stats_thread_func :: "sample list \<Rightarrow> Stats \<Rightarrow> Stats" where
  "stats_thread_func [] st = st"
| "stats_thread_func (x # xs) st =
    (if running st \<noteq> 0 then stats_thread_func xs (stats_pass x st) else st)"

subsection \<open>Main loop\<close>

text \<open>The steps of one iteration of the loop of \<^verbatim>\<open>run\<close> that follow the child check.\<close>

definition check_minute :: "tm \<Rightarrow> state \<Rightarrow> state" where
  "check_minute t s =
    (let current_minute = tm_hour t * 60 + tm_min t
     in if current_minute \<noteq> last_minute (launcher s)
        then s\<lparr>launcher := (launcher s)\<lparr>last_minute := current_minute, needs_redraw := 1\<rparr>\<rparr>
        else s)"

definition check_stats :: "state \<Rightarrow> state" where
  "check_stats s =
    (if changed (stats (launcher s)) \<noteq> 0
     then s\<lparr>launcher := (launcher s)
            \<lparr>stats := (stats (launcher s))\<lparr>changed := 0\<rparr>, needs_redraw := 1\<rparr>\<rparr>
     else s)"

definition redraw_if_needed :: "state \<Rightarrow> state" where
  "redraw_if_needed s =
    (if needs_redraw (launcher s) \<noteq> 0
     then (let s1 = draw s in s1\<lparr>launcher := (launcher s1)\<lparr>needs_redraw := 0\<rparr>\<rparr>)
     else s)"

definition finish_tick :: "tm \<Rightarrow> state \<Rightarrow> state" where
  "finish_tick t s = SDL_Delay 50 (redraw_if_needed (check_stats (check_minute t s)))"

text \<open>The branch of \<^verbatim>\<open>run\<close> taken when \<^verbatim>\<open>is_app_running\<close> returns 0.\<close>

definition app_closed :: "state \<Rightarrow> state" where
  "app_closed s =
    (let s1 = SDL_RaiseWindow (SDL_ShowWindow (s\<lparr>launcher := (launcher s)\<lparr>app_running := 0\<rparr>\<rparr>))
     in s1\<lparr>launcher := (launcher s1)\<lparr>needs_redraw := 1\<rparr>\<rparr>)"

text \<open>
  One iteration of the loop of \<^verbatim>\<open>run\<close>. The first component of the result is 0 when
  the loop breaks and 1 when it goes on.
\<close>

definition tick ::
  "int \<Rightarrow> tm \<Rightarrow> event option list \<Rightarrow> state \<Rightarrow> fault + (int \<times> event option list \<times> state)"
where
  "tick result t es s =
    (case handle_events es s of
       Inl f \<Rightarrow> Inl f
     | Inr (r, es1, s1) \<Rightarrow>
         if r = 0 then Inr (0, es1, s1)
         else if app_running (launcher s1) \<noteq> 0 then
           (case is_app_running result s1 of
              (ret, s2) \<Rightarrow>
                if ret = 0 then Inr (1, es1, finish_tick t (app_closed s2))
                else Inr (1, es1, SDL_Delay 200 s2))
         else Inr (1, es1, finish_tick t s1))"

text \<open>
  The state that \<^verbatim>\<open>launcher_create\<close> leaves when it succeeds (the struct is zeroed by
  \<^verbatim>\<open>calloc\<close>, the window is created shown), and the first repaint of \<^verbatim>\<open>run\<close>.
\<close>

definition launcher_create :: "int list \<Rightarrow> state" where
  "launcher_create forks =
    \<lparr>launcher =
       \<lparr>selected = 0, settings_selected = 0, needs_redraw = 1, last_minute = - 1,
        app_running = 0,
        stats = \<lparr>cpu = 0, mem = 0, temp = 0, disk = 0, changed = 0, running = 1\<rparr>\<rparr>,
     launched_app_pid = 0, window_shown = True, fork_results = forks, trace = []\<rparr>"

definition initial_draw :: "state \<Rightarrow> state" where
  "initial_draw s = (let s1 = draw s in s1\<lparr>launcher := (launcher s1)\<lparr>needs_redraw := 0\<rparr>\<rparr>)"

text \<open>
  An execution of the two threads: a sequence of steps, each either one pass of the sampler
  thread or one tick of the main loop (with the result of \<^verbatim>\<open>waitpid\<close> and the clock
  reading of that tick). A pass and a tick are each taken as one undivided step. The boolean
  of the result tells whether the loop of \<^verbatim>\<open>run\<close> was left.
\<close>

datatype step = Sampler_pass sample | Main_tick int tm

definition sampler_step :: "sample \<Rightarrow> state \<Rightarrow> state" where
  "sampler_step x s =
    s\<lparr>launcher := (launcher s)\<lparr>stats := stats_thread_func [x] (stats (launcher s))\<rparr>\<rparr>"

fun run_loop ::
  "step list \<Rightarrow> event option list \<Rightarrow> state \<Rightarrow> fault + (bool \<times> event option list \<times> state)"
where
  "run_loop [] es s = Inr (False, es, s)"
| "run_loop (Sampler_pass x # steps) es s = run_loop steps es (sampler_step x s)"
| "run_loop (Main_tick result t # steps) es s =
    (case tick result t es s of
       Inl f \<Rightarrow> Inl f
     | Inr (r, es', s') \<Rightarrow> if r = 0 then Inr (True, es', s') else run_loop steps es' s')"

definition run ::
  "step list \<Rightarrow> event option list \<Rightarrow> state \<Rightarrow> fault + (bool \<times> event option list \<times> state)"
where
  "run steps es s = run_loop steps es (initial_draw s)"

subsection \<open>The two threads, access by access\<close>








subsection \<open>Vocabulary of the properties\<close>

text \<open>The effects recorded between two states of one execution, newest first.\<close>

definition emitted :: "state \<Rightarrow> state \<Rightarrow> effect list" where
  "emitted s s' = take (length (trace s') - length (trace s)) (trace s')"

text \<open>
  The trace of the second state is the trace of the first with effects added in front, none
  of which is a repaint.
\<close>

definition extends :: "state \<Rightarrow> state \<Rightarrow> bool" where
  "extends s s' =
    (drop (length (trace s') - length (trace s)) (trace s') = trace s
     \<and> Draw \<notin> set (emitted s s'))"

text \<open>
  A queue is quiet when \<^verbatim>\<open>handle_events\<close> finds no key press and no quit request in it
  before it finds it empty; \<open>unread\<close> is what such a drain leaves in the queue.
\<close>

fun quiet :: "event option list \<Rightarrow> bool" where
  "quiet [] = True"
| "quiet (None # es) = True"
| "quiet (Some SDL_other_event # es) = quiet es"
| "quiet (Some e # es) = False"

fun unread :: "event option list \<Rightarrow> event option list" where
  "unread [] = []"
| "unread (None # es) = es"
| "unread (Some e # es) = unread es"

text \<open>
  A trace (newest first) is gated when every \<^verbatim>\<open>system\<close> call in it is one of the two
  privileged commands and comes directly after the return of its own confirmation dialog
  with the value 1.
\<close>

fun gated :: "effect list \<Rightarrow> bool" where
  "gated [] = True"
| "gated (System c # tr) =
    (gated tr \<and>
     (case tr of
        Confirm_returned a r # _ \<Rightarrow>
          r = 1 \<and> (a = ''Reboot'' \<and> c = ''sudo reboot'' \<or>
                   a = ''Power Off'' \<and> c = ''sudo poweroff'')
      | _ \<Rightarrow> False))"
| "gated (e # tr) = gated tr"

text \<open>Two values of the struct \<^verbatim>\<open>Stats\<close> differ in one of the four snapshot fields.\<close>

definition snapshot_differs :: "Stats \<Rightarrow> Stats \<Rightarrow> bool" where
  "snapshot_differs a b =
    (cpu a \<noteq> cpu b \<or> mem a \<noteq> mem b \<or> temp a \<noteq> temp b \<or> disk a \<noteq> disk b)"

section \<open>Properties\<close>

subsection \<open>Navigation\<close>

text \<open>On the operands that occur, C's truncating remainder is the mathematical one.\<close>

lemma smod_nonneg: "0 \<le> a \<Longrightarrow> (a::int) smod b = a mod \<bar>b\<bar>"
  by (cases "a = 0") (simp_all add: smod_int_alt_def)

lemma wrap_left:
  "0 \<le> i \<Longrightarrow> i < NUM_APPS \<Longrightarrow> (i - 1 + NUM_APPS) smod NUM_APPS = (i - 1) mod NUM_APPS"
proof -
  assume "0 \<le> i" "i < NUM_APPS"
  then have "(i - 1 + NUM_APPS) smod NUM_APPS = (i - 1 + NUM_APPS) mod NUM_APPS"
    by (simp add: smod_nonneg NUM_APPS_def)
  also have "\<dots> = (i - 1) mod NUM_APPS"
    by simp
  finally show ?thesis .
qed

lemma wrap_right: "0 \<le> i \<Longrightarrow> (i + 1) smod NUM_APPS = (i + 1) mod NUM_APPS"
  by (simp add: smod_nonneg NUM_APPS_def)

text \<open>
  Claim C4. The eight cases of the transition table, for a selection inside the tile range.
  A directional key at the head of the queue sets \<open>needs_redraw\<close> and hands the rest of the
  queue on with the following state. Tiles focused (\<open>settings_selected = 0\<close>): left and
  right move the selection by one modulo \<open>NUM_APPS\<close>, up sets \<open>settings_selected\<close>, down
  changes neither field. Settings focused: left clears \<open>settings_selected\<close> and keeps the
  selection, right clears it and selects tile 0, up changes neither field, down clears it.
\<close>

theorem navigation_transition_table:
  assumes "0 \<le> selected (launcher s)" and "selected (launcher s) < NUM_APPS"
  shows
    "(settings_selected (launcher s) = 0 \<longrightarrow>
        handle_events (Some (SDL_KEYDOWN SDLK_LEFT) # es) s =
          handle_events es (s\<lparr>launcher := (launcher s)
            \<lparr>needs_redraw := 1, selected := (selected (launcher s) - 1) mod NUM_APPS\<rparr>\<rparr>)
      \<and> handle_events (Some (SDL_KEYDOWN SDLK_RIGHT) # es) s =
          handle_events es (s\<lparr>launcher := (launcher s)
            \<lparr>needs_redraw := 1, selected := (selected (launcher s) + 1) mod NUM_APPS\<rparr>\<rparr>)
      \<and> handle_events (Some (SDL_KEYDOWN SDLK_UP) # es) s =
          handle_events es (s\<lparr>launcher := (launcher s)
            \<lparr>needs_redraw := 1, settings_selected := 1\<rparr>\<rparr>)
      \<and> handle_events (Some (SDL_KEYDOWN SDLK_DOWN) # es) s =
          handle_events es (s\<lparr>launcher := (launcher s)\<lparr>needs_redraw := 1\<rparr>\<rparr>))
     \<and> (settings_selected (launcher s) \<noteq> 0 \<longrightarrow>
        handle_events (Some (SDL_KEYDOWN SDLK_LEFT) # es) s =
          handle_events es (s\<lparr>launcher := (launcher s)
            \<lparr>needs_redraw := 1, settings_selected := 0\<rparr>\<rparr>)
      \<and> handle_events (Some (SDL_KEYDOWN SDLK_RIGHT) # es) s =
          handle_events es (s\<lparr>launcher := (launcher s)
            \<lparr>needs_redraw := 1, settings_selected := 0, selected := 0\<rparr>\<rparr>)
      \<and> handle_events (Some (SDL_KEYDOWN SDLK_UP) # es) s =
          handle_events es (s\<lparr>launcher := (launcher s)\<lparr>needs_redraw := 1\<rparr>\<rparr>)
      \<and> handle_events (Some (SDL_KEYDOWN SDLK_DOWN) # es) s =
          handle_events es (s\<lparr>launcher := (launcher s)
            \<lparr>needs_redraw := 1, settings_selected := 0\<rparr>\<rparr>))"
  using assms by (simp add: handle_key_def wrap_left wrap_right Let_def)

text \<open>
  The table at the two wrap-around points and in settings focus: right from tile 4 gives
  tile 0, left from tile 0 gives tile 4, right from the settings icon gives tile 0.
\<close>

theorem navigation_transition_table_witness:
  "handle_events [Some (SDL_KEYDOWN SDLK_RIGHT)]
      ((launcher_create [])\<lparr>launcher := (launcher (launcher_create []))\<lparr>selected := 4\<rparr>\<rparr>) =
     Inr (1, [], launcher_create [])
   \<and> handle_events [Some (SDL_KEYDOWN SDLK_LEFT)] (launcher_create []) =
     Inr (1, [], (launcher_create [])\<lparr>launcher := (launcher (launcher_create []))\<lparr>selected := 4\<rparr>\<rparr>)
   \<and> handle_events [Some (SDL_KEYDOWN SDLK_RIGHT)]
      ((launcher_create [])\<lparr>launcher := (launcher (launcher_create []))
         \<lparr>selected := 3, settings_selected := 1\<rparr>\<rparr>) =
     Inr (1, [], launcher_create [])"
  using
    navigation_transition_table
      [of "(launcher_create [])\<lparr>launcher := (launcher (launcher_create []))\<lparr>selected := 4\<rparr>\<rparr>" "[]"]
    navigation_transition_table [of "launcher_create []" "[]"]
    navigation_transition_table
      [of "(launcher_create [])\<lparr>launcher := (launcher (launcher_create []))
         \<lparr>selected := 3, settings_selected := 1\<rparr>\<rparr>" "[]"]
  by (simp add: launcher_create_def NUM_APPS_def)

subsection \<open>Facts about the event loop\<close>

lemma confirm_wait_trace:
  "confirm_wait es tr = Inr (r, es', tr') \<Longrightarrow> \<exists>n. tr' = replicate n (Delay 50) @ tr"
proof (induction es tr rule: confirm_wait.induct)
  case (2 es tr)
  then obtain n where "tr' = replicate n (Delay 50) @ Delay 50 # tr" by auto
  then have "tr' = replicate (Suc n) (Delay 50) @ tr"
    by (simp add: replicate_append_same)
  then show ?case by blast
qed (auto split: if_splits intro: exI [of _ 0])

lemma show_confirm_launcher:
  "show_confirm a es s = Inr (c, es', s') \<Longrightarrow>
     launcher s' = launcher s \<and> launched_app_pid s' = launched_app_pid s \<and>
     window_shown s' = window_shown s \<and> fork_results s' = fork_results s"
  by (auto simp: show_confirm_def split: sum.splits)

text \<open>What every key handler preserves, the whole drain preserves.\<close>

lemma handle_events_invariant:
  assumes run: "handle_events es s = Inr (r, es', s')"
    and init: "P s"
    and step: "\<And>k es s q es' s'. P s \<Longrightarrow> handle_key k es s = Inr (q, es', s') \<Longrightarrow> P s'"
  shows "P s'"
  using run init
proof (induction es s rule: handle_events.induct)
  case (4 k es s)
  then show ?case
    by (auto split: sum.splits if_splits dest: step)
qed auto

lemma handle_events_quiet: "quiet es \<Longrightarrow> handle_events es s = Inr (1, unread es, s)"
  by (induction es rule: quiet.induct) auto

text \<open>Event handling adds effects to the trace, and never a repaint.\<close>

lemma extends_iff: "extends s s' \<longleftrightarrow> (\<exists>pre. trace s' = pre @ trace s \<and> Draw \<notin> set pre)"
proof
  assume "extends s s'"
  then have "trace s' = emitted s s' @ trace s" "Draw \<notin> set (emitted s s')"
    by (simp_all add: extends_def emitted_def)
      (metis append_take_drop_id)
  then show "\<exists>pre. trace s' = pre @ trace s \<and> Draw \<notin> set pre"
    by blast
next
  assume "\<exists>pre. trace s' = pre @ trace s \<and> Draw \<notin> set pre"
  then show "extends s s'"
    by (auto simp: extends_def emitted_def)
qed

lemma extends_refl: "extends s s"
  by (simp add: extends_iff)

lemma extends_trans: "extends s s' \<Longrightarrow> extends s' s'' \<Longrightarrow> extends s s''"
  by (auto simp: extends_iff)

lemma show_confirm_extends: "show_confirm a es s = Inr (c, es', s') \<Longrightarrow> extends s s'"
  by (auto simp: show_confirm_def extends_iff split: sum.splits dest!: confirm_wait_trace)

lemma handle_key_extends:
  assumes "handle_key k es s = Inr (q, es', s')"
  shows "extends s s'"
proof (cases "k = SDLK_r \<or> k = SDLK_p")
  case True
  with assms obtain a c s2 cmd where "show_confirm a es (s\<lparr>launcher := (launcher s)\<lparr>needs_redraw := 1\<rparr>\<rparr>) =
      Inr (c, es', s2)"
    and "trace s' = trace s2 \<or> trace s' = System cmd # trace s2"
    by (auto simp: handle_key_def Let_def system_def split: sum.splits if_splits)
  with show_confirm_extends [of a es "s\<lparr>launcher := (launcher s)\<lparr>needs_redraw := 1\<rparr>\<rparr>" c es' s2]
  show ?thesis
    by (auto simp: extends_iff)
next
  case False
  with assms show ?thesis
    by (cases k)
      (auto simp: handle_key_def Let_def launch_app_def SDL_HideWindow_def extends_iff
        split: sum.splits if_splits)
qed

lemma handle_events_extends:
  assumes "handle_events es s = Inr (r, es', s')"
  shows "extends s s'"
  by (rule handle_events_invariant [OF assms, where P = "extends s"])
    (auto intro: extends_refl extends_trans dest: handle_key_extends)

lemma is_app_running_extends: "is_app_running w s = (ret, s') \<Longrightarrow> extends s s'"
  by (auto simp: is_app_running_def extends_iff Let_def split: if_splits)

lemma is_app_running_launcher: "is_app_running w s = (ret, s') \<Longrightarrow> launcher s' = launcher s"
  by (auto simp: is_app_running_def Let_def split: if_splits)

subsection \<open>Facts about a tick\<close>

lemma finish_tick_fields:
  "needs_redraw (launcher (finish_tick t s)) = 0"
  "changed (stats (launcher (finish_tick t s))) = 0"
  "last_minute (launcher (finish_tick t s)) = tm_hour t * 60 + tm_min t"
  "app_running (launcher (finish_tick t s)) = app_running (launcher s)"
  "window_shown (finish_tick t s) = window_shown s"
  "launched_app_pid (finish_tick t s) = launched_app_pid s"
  by (simp_all add: finish_tick_def SDL_Delay_def redraw_if_needed_def check_stats_def
      check_minute_def draw_def Let_def)

lemma finish_tick_idle:
  "needs_redraw (launcher s) = 0 \<Longrightarrow> tm_hour t * 60 + tm_min t = last_minute (launcher s) \<Longrightarrow>
   changed (stats (launcher s)) = 0 \<Longrightarrow> finish_tick t s = s\<lparr>trace := Delay 50 # trace s\<rparr>"
  by (simp add: finish_tick_def SDL_Delay_def redraw_if_needed_def check_stats_def
      check_minute_def draw_def Let_def)

lemma finish_tick_forced:
  "needs_redraw (launcher s) \<noteq> 0 \<Longrightarrow>
   finish_tick t s =
     s\<lparr>launcher := (launcher s)
         \<lparr>last_minute := tm_hour t * 60 + tm_min t,
          stats := (stats (launcher s))\<lparr>changed := 0\<rparr>,
          needs_redraw := 0\<rparr>,
       trace := Delay 50 # Draw # trace s\<rparr>"
  by (cases s, cases "launcher s", cases "stats (launcher s)")
    (simp add: finish_tick_def SDL_Delay_def redraw_if_needed_def check_stats_def
      check_minute_def draw_def Let_def)

lemma app_closed_fields:
  "app_running (launcher (app_closed s)) = 0"
  "needs_redraw (launcher (app_closed s)) = 1"
  "window_shown (app_closed s)"
  "trace (app_closed s) = RaiseWindow # ShowWindow # trace s"
  "launched_app_pid (app_closed s) = launched_app_pid s"
  by (simp_all add: app_closed_def SDL_RaiseWindow_def SDL_ShowWindow_def Let_def)

text \<open>
  A tick that does not leave the loop ends in one of two ways: with the long delay, a child
  still being in the foreground, or with the steps from the minute check on.
\<close>

lemma tick_continues:
  assumes "tick w t es s = Inr (1, es1, s1)"
  shows "(\<exists>s2. extends s s2 \<and> s1 = SDL_Delay 200 s2 \<and> app_running (launcher s2) \<noteq> 0)
       \<or> (\<exists>s2. s1 = finish_tick t s2 \<and> app_running (launcher s2) = 0)"
proof -
  from assms obtain r sa where he: "handle_events es s = Inr (r, es1, sa)"
    by (auto simp: tick_def split: sum.splits prod.splits if_splits)
  with assms have r: "r \<noteq> 0"
    by (auto simp: tick_def)
  have ext: "extends s sa"
    using he by (rule handle_events_extends)
  show ?thesis
  proof (cases "app_running (launcher sa) = 0")
    case True
    with assms he r have "s1 = finish_tick t sa"
      by (simp add: tick_def)
    with True show ?thesis by blast
  next
    case False
    obtain ret s2 where poll: "is_app_running w sa = (ret, s2)"
      by (cases "is_app_running w sa")
    show ?thesis
    proof (cases "ret = 0")
      case True
      with assms he r False poll have "s1 = finish_tick t (app_closed s2)"
        by (simp add: tick_def)
      then show ?thesis
        by (auto simp: app_closed_fields)
    next
      case ret: False
      with assms he r False poll have "s1 = SDL_Delay 200 s2"
        by (simp add: tick_def)
      moreover have "extends s s2"
        using ext is_app_running_extends [OF poll] by (rule extends_trans)
      moreover have "app_running (launcher s2) \<noteq> 0"
        using False is_app_running_launcher [OF poll] by simp
      ultimately show ?thesis by blast
    qed
  qed
qed

lemma no_draw_when_skipping:
  "extends s s2 \<Longrightarrow> Draw \<notin> set (emitted s (SDL_Delay 200 s2))"
  by (auto simp: extends_iff emitted_def SDL_Delay_def)

subsection \<open>The selection stays inside the tile range\<close>

lemma smod_range: "0 \<le> a \<Longrightarrow> 0 \<le> a smod NUM_APPS \<and> a smod NUM_APPS < NUM_APPS"
  by (simp add: smod_nonneg NUM_APPS_def)

lemma launch_app_launcher: "launch_app cmd s = Inr s' \<Longrightarrow> launcher s' = launcher s"
  by (auto simp: launch_app_def Let_def split: if_splits)

lemma handle_key_selected_range:
  assumes "handle_key k es s = Inr (q, es', s')"
    and "0 \<le> selected (launcher s) \<and> selected (launcher s) < NUM_APPS"
  shows "0 \<le> selected (launcher s') \<and> selected (launcher s') < NUM_APPS"
proof (cases "k = SDLK_LEFT \<or> k = SDLK_RIGHT")
  case True
  with assms smod_range [of "selected (launcher s) - 1 + NUM_APPS"]
    smod_range [of "selected (launcher s) + 1"]
  show ?thesis
    by (auto simp: handle_key_def Let_def NUM_APPS_def split: if_splits)
next
  case False
  with assms show ?thesis
    by (cases k)
      (auto simp: handle_key_def Let_def SDL_HideWindow_def system_def
        split: sum.splits if_splits dest!: show_confirm_launcher launch_app_launcher)
qed

lemma handle_events_selected_range:
  assumes "handle_events es s = Inr (r, es', s')"
    and "0 \<le> selected (launcher s) \<and> selected (launcher s) < NUM_APPS"
  shows "0 \<le> selected (launcher s') \<and> selected (launcher s') < NUM_APPS"
  by (rule handle_events_invariant [OF assms(1),
        where P = "\<lambda>x. 0 \<le> selected (launcher x) \<and> selected (launcher x) < NUM_APPS"])
    (use assms(2) in \<open>auto dest: handle_key_selected_range\<close>)

lemma tick_selected_range:
  assumes "tick w t es s = Inr (r, es', s')"
    and "0 \<le> selected (launcher s) \<and> selected (launcher s) < NUM_APPS"
  shows "0 \<le> selected (launcher s') \<and> selected (launcher s') < NUM_APPS"
proof -
  from assms(1) obtain r1 s1 where he: "handle_events es s = Inr (r1, es', s1)"
    by (auto simp: tick_def split: sum.splits prod.splits if_splits)
  then have range: "0 \<le> selected (launcher s1) \<and> selected (launcher s1) < NUM_APPS"
    using assms(2) by (rule handle_events_selected_range)
  obtain ret s2 where poll: "is_app_running w s1 = (ret, s2)"
    by (cases "is_app_running w s1")
  have sel: "selected (launcher (finish_tick t x)) = selected (launcher x)" for x
    by (simp add: finish_tick_def SDL_Delay_def redraw_if_needed_def check_stats_def
        check_minute_def draw_def Let_def)
  have "selected (launcher s') = selected (launcher s1)"
    using assms(1) he poll is_app_running_launcher [OF poll]
    by (auto simp: tick_def sel SDL_Delay_def app_closed_def SDL_RaiseWindow_def
        SDL_ShowWindow_def Let_def split: if_splits)
  with range show ?thesis by simp
qed

lemma run_loop_selected_range:
  "run_loop steps es s = Inr (b, es', s') \<Longrightarrow>
   0 \<le> selected (launcher s) \<and> selected (launcher s) < NUM_APPS \<Longrightarrow>
   0 \<le> selected (launcher s') \<and> selected (launcher s') < NUM_APPS"
proof (induction steps es s rule: run_loop.induct)
  case (1 es s)
  then show ?case by simp
next
  case (2 x steps es s)
  then show ?case by (simp add: sampler_step_def)
next
  case (3 result t steps es s)
  then show ?case
    by (auto split: sum.splits if_splits dest: tick_selected_range)
qed

text \<open>
  In every state that \<^verbatim>\<open>run\<close> reaches from the state left by \<^verbatim>\<open>launcher_create\<close>, the
  selection is a valid index into \<^verbatim>\<open>apps\<close>.
\<close>

lemma run_selected_range:
  assumes "run steps es (launcher_create forks) = Inr (b, es', s')"
  shows "0 \<le> selected (launcher s') \<and> selected (launcher s') < NUM_APPS"
  using assms unfolding run_def
  by (rule run_loop_selected_range)
    (simp add: initial_draw_def draw_def launcher_create_def NUM_APPS_def Let_def)

subsection \<open>Redraw decision\<close>

text \<open>
  Claim C7. Take any tick that goes on and whose effects include a repaint, and let the next
  tick find a quiet queue (no key press, no quit request) at a clock reading in the same
  minute, with no sampler pass in between. Then the next tick's only effect is the 50 ms
  delay: it repaints nothing, and \<open>needs_redraw\<close>, which the first tick left at 0, is
  still 0 because the launcher struct is unchanged.
\<close>

theorem redraw_idempotent:
  assumes first: "tick w1 t1 es0 s0 = Inr (1, es1, s1)"
    and painted: "Draw \<in> set (emitted s0 s1)"
    and no_key: "quiet es1"
    and same_minute: "tm_hour t2 * 60 + tm_min t2 = tm_hour t1 * 60 + tm_min t1"
  shows "tick w2 t2 es1 s1 = Inr (1, unread es1, s1\<lparr>trace := Delay 50 # trace s1\<rparr>)
    \<and> needs_redraw (launcher s1) = 0
    \<and> emitted s1 (s1\<lparr>trace := Delay 50 # trace s1\<rparr>) = [Delay 50]"
proof -
  from tick_continues [OF first] painted
  obtain s2 where s1: "s1 = finish_tick t1 s2" and fg: "app_running (launcher s2) = 0"
    by (auto dest: no_draw_when_skipping)
  have fields: "needs_redraw (launcher s1) = 0" "changed (stats (launcher s1)) = 0"
    "last_minute (launcher s1) = tm_hour t1 * 60 + tm_min t1" "app_running (launcher s1) = 0"
    by (simp_all add: s1 finish_tick_fields fg)
  have "tick w2 t2 es1 s1 = Inr (1, unread es1, finish_tick t2 s1)"
    by (simp add: tick_def handle_events_quiet [OF no_key] fields)
  moreover have "finish_tick t2 s1 = s1\<lparr>trace := Delay 50 # trace s1\<rparr>"
    by (rule finish_tick_idle) (simp_all add: fields same_minute)
  ultimately show ?thesis
    by (simp add: fields emitted_def)
qed

text \<open>
  The first tick after start-up, at 10:59, repaints; a second tick at 10:59 with an empty
  queue only sleeps.
\<close>

theorem redraw_idempotent_witness:
  "tick 0 \<lparr>tm_hour = 10, tm_min = 59\<rparr> [None] (initial_draw (launcher_create [])) =
     Inr (1, [],
       (launcher_create [])
         \<lparr>launcher := (launcher (launcher_create []))\<lparr>needs_redraw := 0, last_minute := 659\<rparr>,
          trace := [Delay 50, Draw, Draw]\<rparr>)
   \<and> tick 0 \<lparr>tm_hour = 10, tm_min = 59\<rparr> []
       ((launcher_create [])
         \<lparr>launcher := (launcher (launcher_create []))\<lparr>needs_redraw := 0, last_minute := 659\<rparr>,
          trace := [Delay 50, Draw, Draw]\<rparr>) =
     Inr (1, [],
       (launcher_create [])
         \<lparr>launcher := (launcher (launcher_create []))\<lparr>needs_redraw := 0, last_minute := 659\<rparr>,
          trace := [Delay 50, Delay 50, Draw, Draw]\<rparr>)"
  using redraw_idempotent
    [of 0 "\<lparr>tm_hour = 10, tm_min = 59\<rparr>" "[None]" "initial_draw (launcher_create [])" "[]"
      "(launcher_create [])
         \<lparr>launcher := (launcher (launcher_create []))\<lparr>needs_redraw := 0, last_minute := 659\<rparr>,
          trace := [Delay 50, Draw, Draw]\<rparr>"
      "\<lparr>tm_hour = 10, tm_min = 59\<rparr>" 0]
  by (simp add: tick_def finish_tick_def SDL_Delay_def redraw_if_needed_def check_stats_def
      check_minute_def draw_def initial_draw_def launcher_create_def emitted_def Let_def)

text \<open>
  Claim C8. Take a tick that goes on and leaves the launcher in the foreground (no child
  running, so that ticks reach the minute check), and let the next tick find a quiet queue,
  with no sampler pass in between. The first tick has recorded its minute and cleared
  \<open>needs_redraw\<close>. If the clock of the next tick is in another minute, that tick repaints
  once and records the new minute; if it is in the same minute, it only sleeps.
\<close>

theorem minute_rollover_trigger:
  assumes first: "tick w1 t1 es0 s0 = Inr (1, es1, s1)"
    and foreground: "app_running (launcher s1) = 0"
    and no_key: "quiet es1"
  shows "tick w2 t2 es1 s1 =
      Inr (1, unread es1,
        if tm_hour t2 * 60 + tm_min t2 \<noteq> tm_hour t1 * 60 + tm_min t1
        then s1\<lparr>launcher := (launcher s1)\<lparr>last_minute := tm_hour t2 * 60 + tm_min t2\<rparr>,
               trace := Delay 50 # Draw # trace s1\<rparr>
        else s1\<lparr>trace := Delay 50 # trace s1\<rparr>)
    \<and> last_minute (launcher s1) = tm_hour t1 * 60 + tm_min t1
    \<and> needs_redraw (launcher s1) = 0"
proof -
  from tick_continues [OF first] foreground
  obtain s2 where s1: "s1 = finish_tick t1 s2"
    by (auto simp: SDL_Delay_def)
  have fields: "needs_redraw (launcher s1) = 0" "changed (stats (launcher s1)) = 0"
    "last_minute (launcher s1) = tm_hour t1 * 60 + tm_min t1"
    by (simp_all add: s1 finish_tick_fields)
  have "tick w2 t2 es1 s1 = Inr (1, unread es1, finish_tick t2 s1)"
    by (simp add: tick_def handle_events_quiet [OF no_key] foreground)
  moreover have "finish_tick t2 s1 =
    (if tm_hour t2 * 60 + tm_min t2 \<noteq> tm_hour t1 * 60 + tm_min t1
     then s1\<lparr>launcher := (launcher s1)\<lparr>last_minute := tm_hour t2 * 60 + tm_min t2\<rparr>,
            trace := Delay 50 # Draw # trace s1\<rparr>
     else s1\<lparr>trace := Delay 50 # trace s1\<rparr>)"
    using fields
    by (simp add: finish_tick_def SDL_Delay_def redraw_if_needed_def check_stats_def
      check_minute_def draw_def Let_def)
  ultimately show ?thesis
    by (simp add: fields)
qed

text \<open>
  After a tick at 10:59, a tick at 11:00 repaints once and records minute 660, and a tick at
  10:59 does not repaint.
\<close>

theorem minute_rollover_trigger_witness:
  "tick 0 \<lparr>tm_hour = 11, tm_min = 0\<rparr> []
       ((launcher_create [])
         \<lparr>launcher := (launcher (launcher_create []))\<lparr>needs_redraw := 0, last_minute := 659\<rparr>,
          trace := [Delay 50, Draw, Draw]\<rparr>) =
     Inr (1, [],
       (launcher_create [])
         \<lparr>launcher := (launcher (launcher_create []))\<lparr>needs_redraw := 0, last_minute := 660\<rparr>,
          trace := [Delay 50, Draw, Delay 50, Draw, Draw]\<rparr>)
   \<and> tick 0 \<lparr>tm_hour = 10, tm_min = 59\<rparr> []
       ((launcher_create [])
         \<lparr>launcher := (launcher (launcher_create []))\<lparr>needs_redraw := 0, last_minute := 659\<rparr>,
          trace := [Delay 50, Draw, Draw]\<rparr>) =
     Inr (1, [],
       (launcher_create [])
         \<lparr>launcher := (launcher (launcher_create []))\<lparr>needs_redraw := 0, last_minute := 659\<rparr>,
          trace := [Delay 50, Delay 50, Draw, Draw]\<rparr>)"
  using
    minute_rollover_trigger
      [of 0 "\<lparr>tm_hour = 10, tm_min = 59\<rparr>" "[None]" "initial_draw (launcher_create [])" "[]"
        "(launcher_create [])
           \<lparr>launcher := (launcher (launcher_create []))\<lparr>needs_redraw := 0, last_minute := 659\<rparr>,
            trace := [Delay 50, Draw, Draw]\<rparr>"
        0 "\<lparr>tm_hour = 11, tm_min = 0\<rparr>"]
    minute_rollover_trigger
      [of 0 "\<lparr>tm_hour = 10, tm_min = 59\<rparr>" "[None]" "initial_draw (launcher_create [])" "[]"
        "(launcher_create [])
           \<lparr>launcher := (launcher (launcher_create []))\<lparr>needs_redraw := 0, last_minute := 659\<rparr>,
            trace := [Delay 50, Draw, Draw]\<rparr>"
        0 "\<lparr>tm_hour = 10, tm_min = 59\<rparr>"]
  by (simp add: tick_def finish_tick_def SDL_Delay_def redraw_if_needed_def check_stats_def
      check_minute_def draw_def initial_draw_def launcher_create_def Let_def)


subsection \<open>Supervised child\<close>



text \<open>
  Claim C3. Let the events of a tick be handled without leaving the loop, and let
  \<open>app_running\<close> be set afterwards. Then \<^verbatim>\<open>is_app_running\<close> is consulted; where a pid is
  tracked this is one \<^verbatim>\<open>waitpid\<close> with \<^verbatim>\<open>WNOHANG\<close>, and it never touches the
  launcher struct. If it returns nonzero, the tick ends with the 200 ms delay as its only
  further effect: no minute is recorded, the dirty flag is not read, nothing is repainted.
  If it returns 0, \<open>app_running\<close> is cleared, the window is shown and raised, and the tick
  goes through the minute check, the dirty-flag check and a repaint, which the forced
  \<open>needs_redraw\<close> makes unconditional, before the 50 ms delay.
\<close>

theorem running_child_tick:
  assumes events: "handle_events es s = Inr (1, es1, s1)"
    and tracked: "app_running (launcher s1) \<noteq> 0"
  shows
    "(0 < launched_app_pid s1 \<longrightarrow>
        trace (snd (is_app_running w s1)) =
          Waitpid_nohang (launched_app_pid s1) w # trace s1)
     \<and> launcher (snd (is_app_running w s1)) = launcher s1
     \<and> (fst (is_app_running w s1) \<noteq> 0 \<longrightarrow>
          tick w t es s =
            Inr (1, es1, (snd (is_app_running w s1))
              \<lparr>trace := Delay 200 # trace (snd (is_app_running w s1))\<rparr>))
     \<and> (fst (is_app_running w s1) = 0 \<longrightarrow>
          tick w t es s =
            Inr (1, es1, (snd (is_app_running w s1))
              \<lparr>launcher := (launcher s1)
                 \<lparr>app_running := 0,
                  last_minute := tm_hour t * 60 + tm_min t,
                  stats := (stats (launcher s1))\<lparr>changed := 0\<rparr>,
                  needs_redraw := 0\<rparr>,
               window_shown := True,
               trace := Delay 50 # Draw # RaiseWindow # ShowWindow #
                 trace (snd (is_app_running w s1))\<rparr>))"
proof -
  obtain ret s2 where poll: "is_app_running w s1 = (ret, s2)"
    by (cases "is_app_running w s1")
  have l: "launcher s2 = launcher s1"
    using poll by (rule is_app_running_launcher)
  have polled: "0 < launched_app_pid s1 \<longrightarrow>
      trace s2 = Waitpid_nohang (launched_app_pid s1) w # trace s1"
    using poll by (auto simp: is_app_running_def Let_def split: if_splits)
  have still: "ret \<noteq> 0 \<longrightarrow>
      tick w t es s = Inr (1, es1, s2\<lparr>trace := Delay 200 # trace s2\<rparr>)"
    using events tracked poll by (simp add: tick_def SDL_Delay_def)
  have "ret = 0 \<longrightarrow> tick w t es s = Inr (1, es1, finish_tick t (app_closed s2))"
    using events tracked poll by (simp add: tick_def)
  moreover have "finish_tick t (app_closed s2) =
      s2\<lparr>launcher := (launcher s1)
           \<lparr>app_running := 0,
            last_minute := tm_hour t * 60 + tm_min t,
            stats := (stats (launcher s1))\<lparr>changed := 0\<rparr>,
            needs_redraw := 0\<rparr>,
         window_shown := True,
         trace := Delay 50 # Draw # RaiseWindow # ShowWindow # trace s2\<rparr>"
    by (subst finish_tick_forced)
      (simp_all add: app_closed_def SDL_RaiseWindow_def SDL_ShowWindow_def Let_def l)
  ultimately show ?thesis
    using l polled still by (simp add: poll)
qed

text \<open>
  Child 4242 in the foreground, the launcher hidden, minute 659 on display: a tick at 11:00
  while the child runs, and the tick at 11:00 whose poll finds that it has exited.
\<close>

theorem running_child_tick_witness:
  "tick 0 \<lparr>tm_hour = 11, tm_min = 0\<rparr> [None]
      ((launcher_create [])
        \<lparr>launcher := (launcher (launcher_create []))
           \<lparr>needs_redraw := 0, last_minute := 659, app_running := 1\<rparr>,
         launched_app_pid := 4242, window_shown := False\<rparr>) =
     Inr (1, [],
       (launcher_create [])
        \<lparr>launcher := (launcher (launcher_create []))
           \<lparr>needs_redraw := 0, last_minute := 659, app_running := 1\<rparr>,
         launched_app_pid := 4242, window_shown := False,
         trace := [Delay 200, Waitpid_nohang 4242 0]\<rparr>)
   \<and> tick 4242 \<lparr>tm_hour = 11, tm_min = 0\<rparr> [None]
      ((launcher_create [])
        \<lparr>launcher := (launcher (launcher_create []))
           \<lparr>needs_redraw := 0, last_minute := 659, app_running := 1\<rparr>,
         launched_app_pid := 4242, window_shown := False\<rparr>) =
     Inr (1, [],
       (launcher_create [])
        \<lparr>launcher := (launcher (launcher_create []))
           \<lparr>needs_redraw := 0, last_minute := 660\<rparr>,
         trace := [Delay 50, Draw, RaiseWindow, ShowWindow, Waitpid_nohang 4242 4242]\<rparr>)"
  using
    running_child_tick
      [of "[None]"
        "(launcher_create [])
          \<lparr>launcher := (launcher (launcher_create []))
             \<lparr>needs_redraw := 0, last_minute := 659, app_running := 1\<rparr>,
           launched_app_pid := 4242, window_shown := False\<rparr>"
        "[]"
        "(launcher_create [])
          \<lparr>launcher := (launcher (launcher_create []))
             \<lparr>needs_redraw := 0, last_minute := 659, app_running := 1\<rparr>,
           launched_app_pid := 4242, window_shown := False\<rparr>"
        0 "\<lparr>tm_hour = 11, tm_min = 0\<rparr>"]
    running_child_tick
      [of "[None]"
        "(launcher_create [])
          \<lparr>launcher := (launcher (launcher_create []))
             \<lparr>needs_redraw := 0, last_minute := 659, app_running := 1\<rparr>,
           launched_app_pid := 4242, window_shown := False\<rparr>"
        "[]"
        "(launcher_create [])
          \<lparr>launcher := (launcher (launcher_create []))
             \<lparr>needs_redraw := 0, last_minute := 659, app_running := 1\<rparr>,
           launched_app_pid := 4242, window_shown := False\<rparr>"
        4242 "\<lparr>tm_hour = 11, tm_min = 0\<rparr>"]
  by (simp add: is_app_running_def launcher_create_def Let_def)

subsection \<open>Selection frame\<close>

text \<open>
  Claim C10. Up and down hand on a state whose \<open>selected\<close> field is the old one: up sets
  \<open>settings_selected\<close> if it was clear, down clears it. In settings focus, left clears
  \<open>settings_selected\<close> and keeps \<open>selected\<close>, while right clears it and sets \<open>selected\<close>
  to 0. Hence up followed by down, or by left, ends in tiles focus on the tile selected
  before, and up followed by right ends on tile 0.
\<close>

theorem selection_frame:
  "handle_events (Some (SDL_KEYDOWN SDLK_UP) # es) s =
      handle_events es (s\<lparr>launcher := (launcher s)
        \<lparr>needs_redraw := 1,
         settings_selected :=
           (if settings_selected (launcher s) = 0 then 1 else settings_selected (launcher s))\<rparr>\<rparr>)
   \<and> handle_events (Some (SDL_KEYDOWN SDLK_DOWN) # es) s =
      handle_events es (s\<lparr>launcher := (launcher s)
        \<lparr>needs_redraw := 1, settings_selected := 0\<rparr>\<rparr>)
   \<and> (settings_selected (launcher s) \<noteq> 0 \<longrightarrow>
        handle_events (Some (SDL_KEYDOWN SDLK_LEFT) # es) s =
          handle_events es (s\<lparr>launcher := (launcher s)
            \<lparr>needs_redraw := 1, settings_selected := 0\<rparr>\<rparr>)
        \<and> handle_events (Some (SDL_KEYDOWN SDLK_RIGHT) # es) s =
          handle_events es (s\<lparr>launcher := (launcher s)
            \<lparr>needs_redraw := 1, settings_selected := 0, selected := 0\<rparr>\<rparr>))
   \<and> handle_events (Some (SDL_KEYDOWN SDLK_UP) # Some (SDL_KEYDOWN SDLK_DOWN) # es) s =
      handle_events es (s\<lparr>launcher := (launcher s)
        \<lparr>needs_redraw := 1, settings_selected := 0\<rparr>\<rparr>)
   \<and> handle_events (Some (SDL_KEYDOWN SDLK_UP) # Some (SDL_KEYDOWN SDLK_LEFT) # es) s =
      handle_events es (s\<lparr>launcher := (launcher s)
        \<lparr>needs_redraw := 1, settings_selected := 0\<rparr>\<rparr>)
   \<and> handle_events (Some (SDL_KEYDOWN SDLK_UP) # Some (SDL_KEYDOWN SDLK_RIGHT) # es) s =
      handle_events es (s\<lparr>launcher := (launcher s)
        \<lparr>needs_redraw := 1, settings_selected := 0, selected := 0\<rparr>\<rparr>)"
  by (cases s, cases "launcher s") (simp add: handle_key_def Let_def)

text \<open>
  With tile 3 selected: up and down, up and left, and up and right; and left and right
  pressed in settings focus.
\<close>

theorem selection_frame_witness:
  "handle_events [Some (SDL_KEYDOWN SDLK_UP), Some (SDL_KEYDOWN SDLK_DOWN)]
      ((launcher_create [])\<lparr>launcher := (launcher (launcher_create []))\<lparr>selected := 3\<rparr>\<rparr>) =
     Inr (1, [], (launcher_create [])\<lparr>launcher := (launcher (launcher_create []))\<lparr>selected := 3\<rparr>\<rparr>)
   \<and> handle_events [Some (SDL_KEYDOWN SDLK_UP), Some (SDL_KEYDOWN SDLK_LEFT)]
      ((launcher_create [])\<lparr>launcher := (launcher (launcher_create []))\<lparr>selected := 3\<rparr>\<rparr>) =
     Inr (1, [], (launcher_create [])\<lparr>launcher := (launcher (launcher_create []))\<lparr>selected := 3\<rparr>\<rparr>)
   \<and> handle_events [Some (SDL_KEYDOWN SDLK_UP), Some (SDL_KEYDOWN SDLK_RIGHT)]
      ((launcher_create [])\<lparr>launcher := (launcher (launcher_create []))\<lparr>selected := 3\<rparr>\<rparr>) =
     Inr (1, [], launcher_create [])
   \<and> handle_events [Some (SDL_KEYDOWN SDLK_LEFT)]
      ((launcher_create [])\<lparr>launcher := (launcher (launcher_create []))
         \<lparr>selected := 3, settings_selected := 1\<rparr>\<rparr>) =
     Inr (1, [], (launcher_create [])\<lparr>launcher := (launcher (launcher_create []))\<lparr>selected := 3\<rparr>\<rparr>)
   \<and> handle_events [Some (SDL_KEYDOWN SDLK_RIGHT)]
      ((launcher_create [])\<lparr>launcher := (launcher (launcher_create []))
         \<lparr>selected := 3, settings_selected := 1\<rparr>\<rparr>) =
     Inr (1, [], launcher_create [])"
  using
    selection_frame
      [of "[]" "(launcher_create [])\<lparr>launcher := (launcher (launcher_create []))\<lparr>selected := 3\<rparr>\<rparr>"]
    selection_frame
      [of "[]" "(launcher_create [])\<lparr>launcher := (launcher (launcher_create []))
         \<lparr>selected := 3, settings_selected := 1\<rparr>\<rparr>"]
  by (simp add: launcher_create_def)


subsection \<open>Confirmation gating\<close>

lemma gated_delays: "gated (replicate n (Delay 50) @ tr) = gated tr"
  by (induction n) simp_all

lemma confirm_wait_value:
  "confirm_wait es tr = Inr (c, es', tr') \<Longrightarrow> c = 0 \<or> c = 1"
  by (induction es tr rule: confirm_wait.induct) (auto split: if_splits)

text \<open>
  The dialog returns 1 on the first Enter and 0 on the first Escape, whichever comes first;
  nothing before that key is a terminal key.
\<close>

lemma confirm_wait_key:
  "confirm_wait es tr = Inr (c, es', tr') \<Longrightarrow>
    \<exists>pre k. es = pre @ Some (SDL_KEYDOWN k) # es'
      \<and> (c = 1 \<and> (k = SDLK_RETURN \<or> k = SDLK_KP_ENTER) \<or> c = 0 \<and> k = SDLK_ESCAPE)
      \<and> Some (SDL_KEYDOWN SDLK_RETURN) \<notin> set pre
      \<and> Some (SDL_KEYDOWN SDLK_KP_ENTER) \<notin> set pre
      \<and> Some (SDL_KEYDOWN SDLK_ESCAPE) \<notin> set pre"
proof (induction es tr rule: confirm_wait.induct)
  case (1 tr)
  then show ?case by simp
next
  case (2 es tr)
  then obtain pre k where "es = pre @ Some (SDL_KEYDOWN k) # es'"
    "c = 1 \<and> (k = SDLK_RETURN \<or> k = SDLK_KP_ENTER) \<or> c = 0 \<and> k = SDLK_ESCAPE"
    "Some (SDL_KEYDOWN SDLK_RETURN) \<notin> set pre"
    "Some (SDL_KEYDOWN SDLK_KP_ENTER) \<notin> set pre"
    "Some (SDL_KEYDOWN SDLK_ESCAPE) \<notin> set pre"
    by auto
  then show ?case
    by (intro exI [of _ "None # pre"] exI [of _ k]) simp
next
  case (3 k es tr)
  show ?case
  proof (cases "k = SDLK_RETURN \<or> k = SDLK_KP_ENTER \<or> k = SDLK_ESCAPE")
    case True
    with 3 show ?thesis
      by (intro exI [of _ "[]"] exI [of _ k]) (auto split: if_splits)
  next
    case False
    with 3 obtain pre k' where "es = pre @ Some (SDL_KEYDOWN k') # es'"
      "c = 1 \<and> (k' = SDLK_RETURN \<or> k' = SDLK_KP_ENTER) \<or> c = 0 \<and> k' = SDLK_ESCAPE"
      "Some (SDL_KEYDOWN SDLK_RETURN) \<notin> set pre"
      "Some (SDL_KEYDOWN SDLK_KP_ENTER) \<notin> set pre"
      "Some (SDL_KEYDOWN SDLK_ESCAPE) \<notin> set pre"
      by auto
    with False show ?thesis
      by (intro exI [of _ "Some (SDL_KEYDOWN k) # pre"] exI [of _ k']) auto
  qed
next
  case (4 es tr)
  then obtain pre k where "es = pre @ Some (SDL_KEYDOWN k) # es'"
    "c = 1 \<and> (k = SDLK_RETURN \<or> k = SDLK_KP_ENTER) \<or> c = 0 \<and> k = SDLK_ESCAPE"
    "Some (SDL_KEYDOWN SDLK_RETURN) \<notin> set pre"
    "Some (SDL_KEYDOWN SDLK_KP_ENTER) \<notin> set pre"
    "Some (SDL_KEYDOWN SDLK_ESCAPE) \<notin> set pre"
    by auto
  then show ?case
    by (intro exI [of _ "Some SDL_QUIT # pre"] exI [of _ k]) simp
next
  case (5 es tr)
  then obtain pre k where "es = pre @ Some (SDL_KEYDOWN k) # es'"
    "c = 1 \<and> (k = SDLK_RETURN \<or> k = SDLK_KP_ENTER) \<or> c = 0 \<and> k = SDLK_ESCAPE"
    "Some (SDL_KEYDOWN SDLK_RETURN) \<notin> set pre"
    "Some (SDL_KEYDOWN SDLK_KP_ENTER) \<notin> set pre"
    "Some (SDL_KEYDOWN SDLK_ESCAPE) \<notin> set pre"
    by auto
  then show ?case
    by (intro exI [of _ "Some SDL_other_event # pre"] exI [of _ k]) simp
qed

text \<open>The dialog returns exactly when a terminal key is still to come.\<close>

lemma confirm_wait_returns:
  "(\<exists>c es' tr'. confirm_wait es tr = Inr (c, es', tr')) \<longleftrightarrow>
     Some (SDL_KEYDOWN SDLK_RETURN) \<in> set es \<or> Some (SDL_KEYDOWN SDLK_KP_ENTER) \<in> set es
       \<or> Some (SDL_KEYDOWN SDLK_ESCAPE) \<in> set es"
  by (induction es tr rule: confirm_wait.induct) auto

lemma show_confirm_gated:
  "show_confirm a es s = Inr (c, es', s') \<Longrightarrow> gated (trace s) \<Longrightarrow>
    gated (trace s') \<and> (\<exists>tr. trace s' = Confirm_returned a c # tr) \<and> (c = 0 \<or> c = 1)"
proof -
  assume ret: "show_confirm a es s = Inr (c, es', s')" and g: "gated (trace s)"
  then obtain tr' where cw: "confirm_wait es (Dialog_shown a # trace s) = Inr (c, es', tr')"
    and s': "s' = s\<lparr>trace := Confirm_returned a c # tr'\<rparr>"
    by (auto simp: show_confirm_def split: sum.splits)
  from confirm_wait_trace [OF cw] obtain n
    where "tr' = replicate n (Delay 50) @ Dialog_shown a # trace s" ..
  with g s' have "gated (trace s')"
    by (simp add: gated_delays)
  with s' confirm_wait_value [OF cw] show ?thesis
    by simp
qed

lemma launch_app_gated: "launch_app cmd s = Inr s' \<Longrightarrow> gated (trace s) \<Longrightarrow> gated (trace s')"
  by (auto simp: launch_app_def Let_def split: if_splits)

lemma handle_key_gated:
  "handle_key k es s = Inr (q, es', s') \<Longrightarrow> gated (trace s) \<Longrightarrow> gated (trace s')"
proof (cases k)
  case SDLK_r
  assume "handle_key k es s = Inr (q, es', s')" "gated (trace s)"
  with SDLK_r show ?thesis
    by (auto simp: handle_key_def Let_def system_def split: sum.splits
        dest!: show_confirm_gated)
next
  case SDLK_p
  assume "handle_key k es s = Inr (q, es', s')" "gated (trace s)"
  with SDLK_p show ?thesis
    by (auto simp: handle_key_def Let_def system_def split: sum.splits
        dest!: show_confirm_gated)
qed (auto simp: handle_key_def Let_def SDL_HideWindow_def split: sum.splits if_splits
    dest!: launch_app_gated)

lemma handle_events_gated:
  assumes "handle_events es s = Inr (r, es', s')" and "gated (trace s)"
  shows "gated (trace s')"
  by (rule handle_events_invariant [OF assms(1), where P = "\<lambda>x. gated (trace x)"])
    (auto intro: assms(2) dest: handle_key_gated)

lemma finish_tick_gated: "gated (trace s) \<Longrightarrow> gated (trace (finish_tick t s))"
  by (simp add: finish_tick_def SDL_Delay_def redraw_if_needed_def check_stats_def
      check_minute_def draw_def Let_def)

lemma is_app_running_gated:
  "is_app_running w s = (ret, s') \<Longrightarrow> gated (trace s) \<Longrightarrow> gated (trace s')"
  by (auto simp: is_app_running_def Let_def split: if_splits)

lemma tick_gated:
  assumes "tick w t es s = Inr (r, es', s')" and "gated (trace s)"
  shows "gated (trace s')"
proof -
  from assms(1) obtain r1 s1 where he: "handle_events es s = Inr (r1, es', s1)"
    by (auto simp: tick_def split: sum.splits prod.splits if_splits)
  then have g1: "gated (trace s1)"
    using assms(2) by (rule handle_events_gated)
  obtain ret s2 where poll: "is_app_running w s1 = (ret, s2)"
    by (cases "is_app_running w s1")
  have g2: "gated (trace s2)"
    using poll g1 by (rule is_app_running_gated)
  from assms(1) he poll g1 g2 show ?thesis
    by (auto simp: tick_def SDL_Delay_def app_closed_fields
        intro!: finish_tick_gated split: if_splits)
qed

lemma run_loop_gated:
  "run_loop steps es s = Inr (b, es', s') \<Longrightarrow> gated (trace s) \<Longrightarrow> gated (trace s')"
proof (induction steps es s rule: run_loop.induct)
  case (1 es s)
  then show ?case by simp
next
  case (2 x steps es s)
  then show ?case by (simp add: sampler_step_def)
next
  case (3 result t steps es s)
  then show ?case
    by (auto split: sum.splits if_splits dest: tick_gated)
qed

text \<open>
  Claim C5. In every execution of \<^verbatim>\<open>run\<close> from the state that \<^verbatim>\<open>launcher_create\<close>
  leaves, whatever the events, clock readings, poll results and sampler passes, the trace is
  gated: every \<^verbatim>\<open>system\<close> call is \<^verbatim>\<open>sudo reboot\<close> or \<^verbatim>\<open>sudo poweroff\<close> and
  directly follows the return of its own dialog with the value 1. For the reboot and the
  poweroff key alike, when the dialog returns \<open>c\<close>, event handling goes on behind the key
  that closed the dialog, in a state whose launcher struct is the old one with
  \<open>needs_redraw = 1\<close>; the entries added to the trace are the dialog, its 50 ms delays, its
  return, and the privileged command only if \<open>c \<noteq> 0\<close>. The dialog returns 0 only for
  Escape and 1 only for Enter.
\<close>

theorem confirmation_gating:
  "(run steps es0 (launcher_create forks) = Inr (b, es1, s1) \<longrightarrow> gated (trace s1))
   \<and> (confirm_wait es (Dialog_shown ''Reboot'' # trace s) = Inr (c, es', tr') \<longrightarrow>
        handle_events (Some (SDL_KEYDOWN SDLK_r) # es) s =
          handle_events es'
            (s\<lparr>launcher := (launcher s)\<lparr>needs_redraw := 1\<rparr>,
               trace := (if c \<noteq> 0 then [System ''sudo reboot''] else []) @
                 Confirm_returned ''Reboot'' c # tr'\<rparr>)
        \<and> (\<exists>n. tr' = replicate n (Delay 50) @ Dialog_shown ''Reboot'' # trace s)
        \<and> (\<exists>pre k. es = pre @ Some (SDL_KEYDOWN k) # es'
              \<and> (c = 1 \<and> (k = SDLK_RETURN \<or> k = SDLK_KP_ENTER) \<or> c = 0 \<and> k = SDLK_ESCAPE)))
   \<and> (confirm_wait es (Dialog_shown ''Power Off'' # trace s) = Inr (c, es', tr') \<longrightarrow>
        handle_events (Some (SDL_KEYDOWN SDLK_p) # es) s =
          handle_events es'
            (s\<lparr>launcher := (launcher s)\<lparr>needs_redraw := 1\<rparr>,
               trace := (if c \<noteq> 0 then [System ''sudo poweroff''] else []) @
                 Confirm_returned ''Power Off'' c # tr'\<rparr>)
        \<and> (\<exists>n. tr' = replicate n (Delay 50) @ Dialog_shown ''Power Off'' # trace s)
        \<and> (\<exists>pre k. es = pre @ Some (SDL_KEYDOWN k) # es'
              \<and> (c = 1 \<and> (k = SDLK_RETURN \<or> k = SDLK_KP_ENTER) \<or> c = 0 \<and> k = SDLK_ESCAPE)))"
proof -
  have reach: "run steps es0 (launcher_create forks) = Inr (b, es1, s1) \<longrightarrow> gated (trace s1)"
    by (auto simp: run_def initial_draw_def draw_def launcher_create_def Let_def
        dest!: run_loop_gated)
  have key: "handle_key k es s =
      Inr (False, es',
        s\<lparr>launcher := (launcher s)\<lparr>needs_redraw := 1\<rparr>,
          trace := (if c \<noteq> 0 then [System cmd] else []) @ Confirm_returned a c # tr'\<rparr>)"
    if "confirm_wait es (Dialog_shown a # trace s) = Inr (c, es', tr')"
      and "k = SDLK_r \<and> a = ''Reboot'' \<and> cmd = ''sudo reboot''
         \<or> k = SDLK_p \<and> a = ''Power Off'' \<and> cmd = ''sudo poweroff''"
    for k a cmd
    using that by (auto simp: handle_key_def show_confirm_def system_def Let_def)
  have shape: "\<exists>n. tr' = replicate n (Delay 50) @ Dialog_shown a # trace s"
    if "confirm_wait es (Dialog_shown a # trace s) = Inr (c, es', tr')" for a
    using that by (rule confirm_wait_trace)
  have closing: "\<exists>pre k. es = pre @ Some (SDL_KEYDOWN k) # es'
      \<and> (c = 1 \<and> (k = SDLK_RETURN \<or> k = SDLK_KP_ENTER) \<or> c = 0 \<and> k = SDLK_ESCAPE)"
    if "confirm_wait es (Dialog_shown a # trace s) = Inr (c, es', tr')" for a
    using confirm_wait_key [OF that] by blast
  show ?thesis
    using reach key [of "''Reboot''" SDLK_r "''sudo reboot''"]
      key [of "''Power Off''" SDLK_p "''sudo poweroff''"]
      shape [of "''Reboot''"] shape [of "''Power Off''"]
      closing [of "''Reboot''"] closing [of "''Power Off''"]
    by simp
qed

text \<open>
  One tick at 10:59 whose queue holds: the reboot key, an empty poll, a left key that the
  dialog drops, Escape, the poweroff key, Enter. Only the poweroff command is issued, after
  its dialog returned 1. And the reboot key followed by an empty poll and Escape, handled
  from the start state: the launcher struct is the old one and no command is issued.
\<close>

theorem confirmation_gating_witness:
  "run [Main_tick 0 \<lparr>tm_hour = 10, tm_min = 59\<rparr>]
      [Some (SDL_KEYDOWN SDLK_r), None, Some (SDL_KEYDOWN SDLK_LEFT),
       Some (SDL_KEYDOWN SDLK_ESCAPE), Some (SDL_KEYDOWN SDLK_p), Some (SDL_KEYDOWN SDLK_RETURN)]
      (launcher_create []) =
     Inr (False, [],
       (launcher_create [])
         \<lparr>launcher := (launcher (launcher_create []))\<lparr>needs_redraw := 0, last_minute := 659\<rparr>,
          trace :=
            [Delay 50, Draw, System ''sudo poweroff'', Confirm_returned ''Power Off'' 1,
             Dialog_shown ''Power Off'', Confirm_returned ''Reboot'' 0, Delay 50,
             Dialog_shown ''Reboot'', Draw]\<rparr>)
   \<and> gated
       [Delay 50, Draw, System ''sudo poweroff'', Confirm_returned ''Power Off'' 1,
        Dialog_shown ''Power Off'', Confirm_returned ''Reboot'' 0, Delay 50,
        Dialog_shown ''Reboot'', Draw]
   \<and> handle_events
       [Some (SDL_KEYDOWN SDLK_r), None, Some (SDL_KEYDOWN SDLK_ESCAPE)] (launcher_create []) =
     Inr (1, [],
       (launcher_create [])
         \<lparr>trace := [Confirm_returned ''Reboot'' 0, Delay 50, Dialog_shown ''Reboot'']\<rparr>)
   \<and> handle_events
       [Some (SDL_KEYDOWN SDLK_p), Some (SDL_KEYDOWN SDLK_ESCAPE)] (launcher_create []) =
     Inr (1, [],
       (launcher_create [])
         \<lparr>trace := [Confirm_returned ''Power Off'' 0, Dialog_shown ''Power Off'']\<rparr>)"
  using
    confirmation_gating
      [where steps = "[Main_tick 0 \<lparr>tm_hour = 10, tm_min = 59\<rparr>]"
        and ?es0.0 = "[Some (SDL_KEYDOWN SDLK_r), None, Some (SDL_KEYDOWN SDLK_LEFT),
          Some (SDL_KEYDOWN SDLK_ESCAPE), Some (SDL_KEYDOWN SDLK_p),
          Some (SDL_KEYDOWN SDLK_RETURN)]"
        and forks = "[]" and b = False and ?es1.0 = "[]"
        and ?s1.0 = "(launcher_create [])
          \<lparr>launcher := (launcher (launcher_create []))\<lparr>needs_redraw := 0, last_minute := 659\<rparr>,
           trace :=
             [Delay 50, Draw, System ''sudo poweroff'', Confirm_returned ''Power Off'' 1,
              Dialog_shown ''Power Off'', Confirm_returned ''Reboot'' 0, Delay 50,
              Dialog_shown ''Reboot'', Draw]\<rparr>"
        and es = "[None, Some (SDL_KEYDOWN SDLK_ESCAPE)]" and s = "launcher_create []"
        and c = 0 and es' = "[]" and tr' = "[Delay 50, Dialog_shown ''Reboot'']"]
    confirmation_gating
      [where steps = "[]" and ?es0.0 = "[]" and forks = "[]" and b = False and ?es1.0 = "[]"
        and ?s1.0 = "initial_draw (launcher_create [])"
        and es = "[Some (SDL_KEYDOWN SDLK_ESCAPE)]" and s = "launcher_create []"
        and c = 0 and es' = "[]" and tr' = "[Dialog_shown ''Power Off'']"]
  by (simp add: run_def tick_def handle_key_def show_confirm_def system_def finish_tick_def
      SDL_Delay_def redraw_if_needed_def check_stats_def check_minute_def draw_def
      initial_draw_def launcher_create_def Let_def)


subsection \<open>Failed launch\<close>

lemma launch_app_failing:
  assumes "launched_app_pid s \<le> 0" and "\<forall>r\<in>set (fork_results s). r < 0"
    and "launch_app cmd s = Inr s'"
  shows "launched_app_pid s' \<le> 0 \<and> (\<forall>r\<in>set (fork_results s'). r < 0)"
proof (cases "fork_results s")
  case Nil
  with assms show ?thesis
    by (auto simp: launch_app_def Let_def split: if_splits)
next
  case (Cons r rs)
  with assms show ?thesis
    by (auto simp: launch_app_def Let_def split: if_splits)
qed

lemma handle_key_failing:
  assumes "handle_key k es s = Inr (q, es', s')"
    and "launched_app_pid s \<le> 0 \<and> (\<forall>r\<in>set (fork_results s). r < 0)"
  shows "launched_app_pid s' \<le> 0 \<and> (\<forall>r\<in>set (fork_results s'). r < 0)"
proof (cases "k = SDLK_RETURN \<or> k = SDLK_KP_ENTER")
  case True
  with assms(1) obtain cmd s2
    where "launch_app cmd (s\<lparr>launcher := (launcher s)\<lparr>needs_redraw := 1\<rparr>\<rparr>) = Inr s2"
      and "s' = SDL_HideWindow (s2\<lparr>launcher := (launcher s2)\<lparr>app_running := 1\<rparr>\<rparr>)"
    by (auto simp: handle_key_def Let_def split: sum.splits if_splits)
  with assms(2) launch_app_failing [of "s\<lparr>launcher := (launcher s)\<lparr>needs_redraw := 1\<rparr>\<rparr>" cmd s2]
  show ?thesis
    by (simp add: SDL_HideWindow_def)
next
  case False
  with assms show ?thesis
    by (cases k)
      (auto simp: handle_key_def Let_def system_def split: sum.splits if_splits
        dest!: show_confirm_launcher)
qed

lemma handle_events_failing:
  assumes "handle_events es s = Inr (r, es', s')"
    and "launched_app_pid s \<le> 0" and "\<forall>r\<in>set (fork_results s). r < 0"
  shows "launched_app_pid s' \<le> 0"
proof -
  have "launched_app_pid s' \<le> 0 \<and> (\<forall>r\<in>set (fork_results s'). r < 0)"
    by (rule handle_events_invariant [OF assms(1),
          where P = "\<lambda>x. launched_app_pid x \<le> 0 \<and> (\<forall>r\<in>set (fork_results x). r < 0)"])
      (use assms(2,3) in \<open>auto dest: handle_key_failing\<close>)
  then show ?thesis ..
qed

text \<open>
  Claim C1 as the code has it. A confirm key whose \<^verbatim>\<open>fork\<close> fails does set
  \<open>app_running\<close> and hide the window: here is the start state after the Enter key, with
  \<^verbatim>\<open>fork\<close> returning -1.
\<close>

theorem failed_launch_hides_window:
  "handle_events [Some (SDL_KEYDOWN SDLK_RETURN)] (launcher_create [- 1]) =
     Inr (1, [],
       (launcher_create [])
         \<lparr>launcher := (launcher (launcher_create []))\<lparr>app_running := 1\<rparr>,
          window_shown := False,
          trace := [HideWindow, Fork ''kodi'' (- 1)]\<rparr>)
   \<and> app_running (launcher
       ((launcher_create [])
         \<lparr>launcher := (launcher (launcher_create []))\<lparr>app_running := 1\<rparr>,
          window_shown := False,
          trace := [HideWindow, Fork ''kodi'' (- 1)]\<rparr>)) = 1
   \<and> \<not> window_shown
       ((launcher_create [])
         \<lparr>launcher := (launcher (launcher_create []))\<lparr>app_running := 1\<rparr>,
          window_shown := False,
          trace := [HideWindow, Fork ''kodi'' (- 1)]\<rparr>)"
  by (simp add: handle_key_def launch_app_def SDL_HideWindow_def launcher_create_def
      NUM_APPS_def apps_def Let_def)

text \<open>
  Claim C1, amended. When \<^verbatim>\<open>fork\<close> fails, \<^verbatim>\<open>launch_app\<close> records no child, and
  the confirm key still sets \<open>app_running\<close> and hides the window. If no child is tracked
  when a tick starts and every \<^verbatim>\<open>fork\<close> of the tick fails, then no child is tracked
  after the events either, and a tick whose events left \<open>app_running\<close> set goes on as
  follows: without calling \<^verbatim>\<open>waitpid\<close> it clears \<open>app_running\<close>, shows and raises the
  window, records the minute, clears the dirty flag, repaints and sleeps 50 ms. At the end
  of the tick the window is shown and \<open>app_running\<close> is 0.
\<close>

theorem failed_launch_recovers_in_tick:
  assumes untracked: "launched_app_pid s \<le> 0"
    and failing: "\<forall>r\<in>set (fork_results s). r < 0"
    and events: "handle_events es s = Inr (1, es1, s1)"
    and marked: "app_running (launcher s1) \<noteq> 0"
  shows
    "launch_app cmd s =
        Inr (s\<lparr>fork_results := tl (fork_results s),
               trace := Fork cmd (case fork_results s of [] \<Rightarrow> - 1 | r # _ \<Rightarrow> r) # trace s\<rparr>)
     \<and> ((k = SDLK_RETURN \<or> k = SDLK_KP_ENTER) \<and> settings_selected (launcher s) = 0
          \<and> 0 \<le> selected (launcher s) \<and> selected (launcher s) < NUM_APPS \<longrightarrow>
        handle_key k es' s =
          Inr (False, es',
            s\<lparr>launcher := (launcher s)\<lparr>needs_redraw := 1, app_running := 1\<rparr>,
              window_shown := False,
              fork_results := tl (fork_results s),
              trace := HideWindow #
                Fork (command (apps ! nat (selected (launcher s))))
                  (case fork_results s of [] \<Rightarrow> - 1 | r # _ \<Rightarrow> r) # trace s\<rparr>))
     \<and> launched_app_pid s1 \<le> 0
     \<and> tick w t es s =
        Inr (1, es1,
          s1\<lparr>launcher := (launcher s1)
               \<lparr>app_running := 0,
                last_minute := tm_hour t * 60 + tm_min t,
                stats := (stats (launcher s1))\<lparr>changed := 0\<rparr>,
                needs_redraw := 0\<rparr>,
             window_shown := True,
             trace := Delay 50 # Draw # RaiseWindow # ShowWindow # trace s1\<rparr>)"
proof -
  have launch: "launch_app cmd s =
      Inr (s\<lparr>fork_results := tl (fork_results s),
             trace := Fork cmd (case fork_results s of [] \<Rightarrow> - 1 | r # _ \<Rightarrow> r) # trace s\<rparr>)"
    if "\<forall>r\<in>set (fork_results s). r < 0" for cmd s
    using that by (cases "fork_results s") (auto simp: launch_app_def Let_def)
  have key: "(k = SDLK_RETURN \<or> k = SDLK_KP_ENTER) \<and> settings_selected (launcher s) = 0
        \<and> 0 \<le> selected (launcher s) \<and> selected (launcher s) < NUM_APPS \<longrightarrow>
      handle_key k es' s =
        Inr (False, es',
          s\<lparr>launcher := (launcher s)\<lparr>needs_redraw := 1, app_running := 1\<rparr>,
            window_shown := False,
            fork_results := tl (fork_results s),
            trace := HideWindow #
              Fork (command (apps ! nat (selected (launcher s))))
                (case fork_results s of [] \<Rightarrow> - 1 | r # _ \<Rightarrow> r) # trace s\<rparr>)"
    using failing
      launch [of "s\<lparr>launcher := (launcher s)\<lparr>needs_redraw := 1\<rparr>\<rparr>"
        "command (apps ! nat (selected (launcher s)))"]
    by (auto simp: handle_key_def SDL_HideWindow_def Let_def)
  have pid: "launched_app_pid s1 \<le> 0"
    using events untracked failing by (rule handle_events_failing)
  then have poll: "is_app_running w s1 = (0, s1)"
    by (simp add: is_app_running_def)
  have "tick w t es s = Inr (1, es1, finish_tick t (app_closed s1))"
    using events marked poll by (simp add: tick_def)
  moreover have "finish_tick t (app_closed s1) =
      s1\<lparr>launcher := (launcher s1)
           \<lparr>app_running := 0,
            last_minute := tm_hour t * 60 + tm_min t,
            stats := (stats (launcher s1))\<lparr>changed := 0\<rparr>,
            needs_redraw := 0\<rparr>,
         window_shown := True,
         trace := Delay 50 # Draw # RaiseWindow # ShowWindow # trace s1\<rparr>"
    by (subst finish_tick_forced)
      (simp_all add: app_closed_def SDL_RaiseWindow_def SDL_ShowWindow_def Let_def)
  ultimately show ?thesis
    using launch [OF failing, of cmd] key pid by simp
qed

text \<open>
  The first tick after start-up, at 10:59, with the Enter key in the queue and \<^verbatim>\<open>fork\<close>
  returning -1: the window is hidden and shown again within the tick.
\<close>

theorem failed_launch_recovers_in_tick_witness:
  "handle_events [Some (SDL_KEYDOWN SDLK_RETURN)] (initial_draw (launcher_create [- 1])) =
     Inr (1, [],
       (launcher_create [])
         \<lparr>launcher := (launcher (launcher_create []))\<lparr>app_running := 1\<rparr>,
          window_shown := False,
          trace := [HideWindow, Fork ''kodi'' (- 1), Draw]\<rparr>)
   \<and> tick 0 \<lparr>tm_hour = 10, tm_min = 59\<rparr> [Some (SDL_KEYDOWN SDLK_RETURN)]
       (initial_draw (launcher_create [- 1])) =
     Inr (1, [],
       (launcher_create [])
         \<lparr>launcher := (launcher (launcher_create []))\<lparr>needs_redraw := 0, last_minute := 659\<rparr>,
          trace :=
            [Delay 50, Draw, RaiseWindow, ShowWindow, HideWindow, Fork ''kodi'' (- 1), Draw]\<rparr>)"
  using failed_launch_recovers_in_tick
    [where s = "initial_draw (launcher_create [- 1])"
      and es = "[Some (SDL_KEYDOWN SDLK_RETURN)]" and ?es1.0 = "[]"
      and ?s1.0 = "(launcher_create [])
         \<lparr>launcher := (launcher (launcher_create []))\<lparr>app_running := 1\<rparr>,
          window_shown := False,
          trace := [HideWindow, Fork ''kodi'' (- 1), Draw]\<rparr>"
      and cmd = "''kodi''" and k = SDLK_RETURN and es' = "[]" and w = 0
      and t = "\<lparr>tm_hour = 10, tm_min = 59\<rparr>"]
  by (simp add: handle_key_def launch_app_def SDL_HideWindow_def initial_draw_def draw_def
      launcher_create_def NUM_APPS_def apps_def Let_def)

subsection \<open>Dirty flag\<close>

lemma stats_pass_changed:
  "changed (stats_pass x st) = (if snapshot_differs st (stats_pass x st) then 1 else changed st)"
  by (auto simp: stats_pass_def snapshot_differs_def Let_def split: option.splits)

lemma stats_pass_running: "running (stats_pass x st) = running st"
  by (simp add: stats_pass_def Let_def split: option.splits)

lemma stats_pass_fields:
  "cpu (stats_pass x st) = (case cpu_sample x of None \<Rightarrow> cpu st | Some v \<Rightarrow> v)"
  "mem (stats_pass x st) = (case mem_sample x of None \<Rightarrow> mem st | Some v \<Rightarrow> v)"
  "temp (stats_pass x st) = (case temp_sample x of None \<Rightarrow> temp st | Some v \<Rightarrow> v)"
  "disk (stats_pass x st) = (case disk_sample x of None \<Rightarrow> disk st | Some v \<Rightarrow> v)"
  by (simp_all add: stats_pass_def Let_def split: option.splits)

lemma stats_pass_same:
  assumes "\<not> snapshot_differs st (stats_pass x st)"
  shows "stats_pass x st = st"
proof (rule Stats.equality)
  show "cpu (stats_pass x st) = cpu st" "mem (stats_pass x st) = mem st"
    "temp (stats_pass x st) = temp st" "disk (stats_pass x st) = disk st"
    using assms by (simp_all add: snapshot_differs_def)
  show "changed (stats_pass x st) = changed st"
    using assms by (simp add: stats_pass_changed)
  show "running (stats_pass x st) = running st"
    by (rule stats_pass_running)
  show "Stats.more (stats_pass x st) = Stats.more st"
    by simp
qed

text \<open>
  After any number of passes the flag is 1 if some pass changed a field, and otherwise what
  it was before the passes.
\<close>

lemma stats_thread_func_changed:
  "running st \<noteq> 0 \<Longrightarrow>
   changed (stats_thread_func xs st) =
     (if \<exists>i<length xs. snapshot_differs (stats_thread_func (take i xs) st)
           (stats_thread_func (take (Suc i) xs) st)
      then 1 else changed st)"
proof (induction xs arbitrary: st)
  case Nil
  then show ?case by simp
next
  case (Cons x xs)
  let ?st = "stats_pass x st"
  let ?D = "\<lambda>st xs i. snapshot_differs (stats_thread_func (take i xs) st)
      (stats_thread_func (take (Suc i) xs) st)"
  have run: "running ?st \<noteq> 0"
    using Cons.prems by (simp add: stats_pass_running)
  have shift: "?D st (x # xs) (Suc i) = ?D ?st xs i" for i
    using Cons.prems by simp
  have first: "?D st (x # xs) 0 = snapshot_differs st ?st"
    using Cons.prems by simp
  have split: "(\<exists>i<length (x # xs). ?D st (x # xs) i) \<longleftrightarrow>
      snapshot_differs st ?st \<or> (\<exists>i<length xs. ?D ?st xs i)"
  proof
    assume "\<exists>i<length (x # xs). ?D st (x # xs) i"
    then obtain i where i: "i < length (x # xs)" "?D st (x # xs) i" by blast
    show "snapshot_differs st ?st \<or> (\<exists>i<length xs. ?D ?st xs i)"
    proof (cases i)
      case 0
      with i first show ?thesis by simp
    next
      case (Suc j)
      with i shift [of j] have "j < length xs" "?D ?st xs j" by simp_all
      then show ?thesis by blast
    qed
  next
    assume "snapshot_differs st ?st \<or> (\<exists>i<length xs. ?D ?st xs i)"
    then show "\<exists>i<length (x # xs). ?D st (x # xs) i"
    proof
      assume "snapshot_differs st ?st"
      with first have "?D st (x # xs) 0" by simp
      then show ?thesis by (intro exI [of _ 0]) simp
    next
      assume "\<exists>i<length xs. ?D ?st xs i"
      then obtain j where "j < length xs" "?D ?st xs j" by blast
      with shift [of j] have "Suc j < length (x # xs)" "?D st (x # xs) (Suc j)" by simp_all
      then show ?thesis by blast
    qed
  qed
  have "changed (stats_thread_func (x # xs) st) = changed (stats_thread_func xs ?st)"
    using Cons.prems by simp
  also have "\<dots> = (if \<exists>i<length xs. ?D ?st xs i then 1 else changed ?st)"
    using run by (rule Cons.IH)
  also have "\<dots> =
      (if snapshot_differs st ?st \<or> (\<exists>i<length xs. ?D ?st xs i) then 1 else changed st)"
    by (auto simp: stats_pass_changed)
  also have "\<dots> = (if \<exists>i<length (x # xs). ?D st (x # xs) i then 1 else changed st)"
    by (simp only: split)
  finally show ?case .
qed

lemma check_stats_clears: "changed (stats (launcher (check_stats s))) = 0"
  by (simp add: check_stats_def)

lemma check_stats_idle: "changed (stats (launcher s)) = 0 \<Longrightarrow> check_stats s = s"
  by (simp add: check_stats_def)

text \<open>
  Claim C2. One pass sets the flag to 1 exactly when one of the four fields has changed
  during the pass, and otherwise leaves the whole struct, the flag included, as it was.
  For a running sampler, the flag after any sequence of passes is 1 if some pass of the
  sequence changed a field, however many did, and otherwise what it was before the sequence
  (0 if the main loop had cleared it). The read-and-clear of the main loop, applied to the launcher after such a sequence,
  sets \<open>needs_redraw\<close> and clears the flag if the flag was set and does nothing otherwise;
  a second read-and-clear directly after it does nothing.
\<close>

theorem dirty_flag_edge_trigger:
  "changed (stats_pass x st) = (if snapshot_differs st (stats_pass x st) then 1 else changed st)
   \<and> (\<not> snapshot_differs st (stats_pass x st) \<longrightarrow> stats_pass x st = st)
   \<and> (running st \<noteq> 0 \<longrightarrow>
        changed (stats_thread_func xs st) =
          (if \<exists>i<length xs. snapshot_differs (stats_thread_func (take i xs) st)
                (stats_thread_func (take (Suc i) xs) st)
           then 1 else changed st))
   \<and> (stats (launcher s) = stats_thread_func xs st \<longrightarrow>
        check_stats s =
          (if changed (stats_thread_func xs st) \<noteq> 0
           then s\<lparr>launcher := (launcher s)
                  \<lparr>stats := (stats_thread_func xs st)\<lparr>changed := 0\<rparr>, needs_redraw := 1\<rparr>\<rparr>
           else s)
        \<and> changed (stats (launcher (check_stats s))) = 0
        \<and> check_stats (check_stats s) = check_stats s)"
proof -
  have seq: "running st \<noteq> 0 \<longrightarrow>
      changed (stats_thread_func xs st) =
        (if \<exists>i<length xs. snapshot_differs (stats_thread_func (take i xs) st)
              (stats_thread_func (take (Suc i) xs) st)
         then 1 else changed st)"
    using stats_thread_func_changed [of st xs] by blast
  have consume: "stats (launcher s) = stats_thread_func xs st \<longrightarrow>
      check_stats s =
        (if changed (stats_thread_func xs st) \<noteq> 0
         then s\<lparr>launcher := (launcher s)
                \<lparr>stats := (stats_thread_func xs st)\<lparr>changed := 0\<rparr>, needs_redraw := 1\<rparr>\<rparr>
         else s)"
    by (simp add: check_stats_def)
  have again: "check_stats (check_stats s) = check_stats s"
    by (rule check_stats_idle) (rule check_stats_clears)
  show ?thesis
    using stats_pass_changed [of x st] stats_pass_same [of st x] seq consume again
      check_stats_clears [of s]
    by blast
qed

text \<open>
  Three passes from the start state: the first two change fields, the third reads the same
  values again. The flag is 1 after them; a pass that reads the same values on a clear flag
  leaves it clear; the main loop's read-and-clear then asks for one repaint and clears the
  flag, and a second read-and-clear changes nothing.
\<close>

theorem dirty_flag_edge_trigger_witness:
  "stats_thread_func
      [\<lparr>cpu_sample = None, mem_sample = Some 40, temp_sample = None, disk_sample = Some 71\<rparr>,
       \<lparr>cpu_sample = Some 30, mem_sample = Some 40, temp_sample = Some 51, disk_sample = Some 71\<rparr>,
       \<lparr>cpu_sample = Some 30, mem_sample = Some 40, temp_sample = Some 51, disk_sample = Some 71\<rparr>]
      \<lparr>cpu = 0, mem = 0, temp = 0, disk = 0, changed = 0, running = 1\<rparr> =
     \<lparr>cpu = 30, mem = 40, temp = 51, disk = 71, changed = 1, running = 1\<rparr>
   \<and> stats_pass
      \<lparr>cpu_sample = Some 30, mem_sample = Some 40, temp_sample = Some 51, disk_sample = Some 71\<rparr>
      \<lparr>cpu = 30, mem = 40, temp = 51, disk = 71, changed = 0, running = 1\<rparr> =
     \<lparr>cpu = 30, mem = 40, temp = 51, disk = 71, changed = 0, running = 1\<rparr>
   \<and> check_stats
      ((launcher_create [])\<lparr>launcher := (launcher (launcher_create []))
         \<lparr>needs_redraw := 0,
          stats := \<lparr>cpu = 30, mem = 40, temp = 51, disk = 71, changed = 1, running = 1\<rparr>\<rparr>\<rparr>) =
     (launcher_create [])\<lparr>launcher := (launcher (launcher_create []))
         \<lparr>needs_redraw := 1,
          stats := \<lparr>cpu = 30, mem = 40, temp = 51, disk = 71, changed = 0, running = 1\<rparr>\<rparr>\<rparr>
   \<and> check_stats
      ((launcher_create [])\<lparr>launcher := (launcher (launcher_create []))
         \<lparr>needs_redraw := 0,
          stats := \<lparr>cpu = 30, mem = 40, temp = 51, disk = 71, changed = 0, running = 1\<rparr>\<rparr>\<rparr>) =
     (launcher_create [])\<lparr>launcher := (launcher (launcher_create []))
         \<lparr>needs_redraw := 0,
          stats := \<lparr>cpu = 30, mem = 40, temp = 51, disk = 71, changed = 0, running = 1\<rparr>\<rparr>\<rparr>"
  using
    dirty_flag_edge_trigger
      [of "\<lparr>cpu_sample = Some 30, mem_sample = Some 40, temp_sample = Some 51,
            disk_sample = Some 71\<rparr>"
        "\<lparr>cpu = 30, mem = 40, temp = 51, disk = 71, changed = 0, running = 1\<rparr>"
        "[\<lparr>cpu_sample = None, mem_sample = Some 40, temp_sample = None, disk_sample = Some 71\<rparr>,
          \<lparr>cpu_sample = Some 30, mem_sample = Some 40, temp_sample = Some 51,
            disk_sample = Some 71\<rparr>,
          \<lparr>cpu_sample = Some 30, mem_sample = Some 40, temp_sample = Some 51,
            disk_sample = Some 71\<rparr>]"
        "(launcher_create [])\<lparr>launcher := (launcher (launcher_create []))
           \<lparr>needs_redraw := 0,
            stats := \<lparr>cpu = 30, mem = 40, temp = 51, disk = 71, changed = 0, running = 1\<rparr>\<rparr>\<rparr>"]
    dirty_flag_edge_trigger
      [of "\<lparr>cpu_sample = None, mem_sample = Some 40, temp_sample = None, disk_sample = Some 71\<rparr>"
        "\<lparr>cpu = 0, mem = 0, temp = 0, disk = 0, changed = 0, running = 1\<rparr>"
        "[\<lparr>cpu_sample = None, mem_sample = Some 40, temp_sample = None, disk_sample = Some 71\<rparr>,
          \<lparr>cpu_sample = Some 30, mem_sample = Some 40, temp_sample = Some 51,
            disk_sample = Some 71\<rparr>,
          \<lparr>cpu_sample = Some 30, mem_sample = Some 40, temp_sample = Some 51,
            disk_sample = Some 71\<rparr>]"
        "(launcher_create [])\<lparr>launcher := (launcher (launcher_create []))
           \<lparr>needs_redraw := 0,
            stats := \<lparr>cpu = 30, mem = 40, temp = 51, disk = 71, changed = 1, running = 1\<rparr>\<rparr>\<rparr>"]
  by (simp add: stats_pass_def check_stats_def snapshot_differs_def launcher_create_def Let_def)


subsection \<open>Shared snapshot and flag, access by access\<close>
















end
